theory Spec2Isabelle
  imports Complex_Main "HOL-Library.Multiset"
begin

section \<open>Data model\<close>

text \<open>
  A cell of a pandas DataFrame read from a CSV file: a number (int64 or float64, both
  read here as a rational), a text, or the missing marker NaN.  Floating-point rounding,
  infinities and signed zero are outside the model.
\<close>

datatype cell = Num rat | Str string | NaN

text \<open>
  A DataFrame: its column labels, left to right, and its rows, top to bottom, every row
  holding one cell per column.  The row index is not kept: the code resets it
  (\<open>reset_index(drop=True)\<close>) before it is read.
\<close>

record dataframe =
  columns :: "string list"
  rows :: "cell list list"

text \<open>
  A frame is rectangular, and the labels that \<open>read_csv\<close> gives its columns are
  distinct (it renames a repeated header \<open>X\<close> to \<open>X.1\<close>).  Of the frames with a
  repeated label only those that repeat the label of the grade column are modelled as
  pandas treats them (see \<open>coerce_grades\<close>).
\<close>

definition wf_df :: "dataframe \<Rightarrow> bool" where
  "wf_df df = (distinct (columns df) \<and> list_all (\<lambda>r. length r = length (columns df)) (rows df))"

text \<open>The exceptions that the code and the library calls it makes can raise.\<close>

datatype error = ValueError string | KeyError string | TypeError string

text \<open>The entries that \<open>allocate_students\<close> sends to the logger.\<close>

datatype log_entry =
    Info_detected nat string "string list" nat
  | Warning_nan
  | Exception_logged error

text \<open>
  What the code takes from pandas and numpy without fixing it itself:
  \<^item> \<open>str_to_num\<close>: how \<open>pd.to_numeric(errors="coerce")\<close> reads a text cell
    (\<open>None\<close>: not a number, coerced to NaN);
  \<^item> \<open>order_grades\<close>: the order in which \<open>DataFrame.sort_values(ascending=False)\<close>,
    with its default \<open>kind="quicksort"\<close> and \<open>na_position="last"\<close>, puts the rows, as
    the list of the old positions, from the keys of the rows (\<open>None\<close>: NaN);
  \<^item> \<open>order_counts\<close>: the same for the sort by count inside \<open>value_counts\<close>, from
    the counts;
  \<^item> \<open>values_cast\<close>: the cast of a cell to the common dtype of a frame, given by its
    rows, whose columns are all numeric (\<open>DataFrame.values\<close>: int64 when every column
    is int64, float64 when int64 and float64 columns are mixed).
\<close>

record library =
  str_to_num :: "string \<Rightarrow> rat option"
  order_grades :: "rat option list \<Rightarrow> nat list"
  order_counts :: "nat list \<Rightarrow> nat list"
  values_cast :: "cell list list \<Rightarrow> cell \<Rightarrow> cell"

section \<open>Strings\<close>

text \<open>\<open>str.lower()\<close> on the ASCII letters; every other character is kept.\<close>

definition lower_char :: "char \<Rightarrow> char" where
  "lower_char c =
     (let k = (of_char c :: nat) in if 65 \<le> k \<and> k \<le> 90 then char_of (k + 32) else c)"

definition lower :: "string \<Rightarrow> string" where
  "lower s = map lower_char s"

fun starts_with :: "string \<Rightarrow> string \<Rightarrow> bool" where
  "starts_with [] s = True"
| "starts_with (p # ps) [] = False"
| "starts_with (p # ps) (c # cs) = (p = c \<and> starts_with ps cs)"

text \<open>Python's \<open>sub in s\<close> on strings.\<close>

fun contains :: "string \<Rightarrow> string \<Rightarrow> bool" where
  "contains sub [] = starts_with sub []"
| "contains sub (c # cs) = (starts_with sub (c # cs) \<or> contains sub cs)"

section \<open>Helper functions of the source\<close>

text \<open>
  \<open>find_cgpa_col(cols)\<close>: the loop over \<open>enumerate(cols)\<close>, with the running index
  \<open>i\<close> as an argument.
\<close>

fun find_cgpa_from :: "nat \<Rightarrow> string list \<Rightarrow> nat option" where
  "find_cgpa_from i [] = None"
| "find_cgpa_from i (c # cs) =
     (if contains ''cgpa'' (lower c) then Some i else find_cgpa_from (Suc i) cs)"

definition find_cgpa_col :: "string list \<Rightarrow> nat option" where
  "find_cgpa_col cols = find_cgpa_from 0 cols"

section \<open>The DataFrame operations the code uses\<close>

text \<open>The position of a column label (the first one, were the label repeated).\<close>

fun col_index :: "string list \<Rightarrow> string \<Rightarrow> nat option" where
  "col_index [] name = None"
| "col_index (c # cs) name = (if c = name then Some 0 else map_option Suc (col_index cs name))"

text \<open>\<open>df[name]\<close>: the cells of a column; an unknown label raises KeyError.\<close>

definition get_column :: "string \<Rightarrow> dataframe \<Rightarrow> error + cell list" where
  "get_column name df =
     (case col_index (columns df) name of
        None \<Rightarrow> Inl (KeyError name)
      | Some k \<Rightarrow> Inr (map (\<lambda>r. r ! k) (rows df)))"

text \<open>
  \<open>row[name]\<close> on a row that \<open>iterrows\<close> yields: \<open>row\<close> holds the values of the
  Series, which \<open>iterrows\<close> below computes from the cells of the frame.
\<close>

definition row_get :: "string list \<Rightarrow> cell list \<Rightarrow> string \<Rightarrow> error + cell" where
  "row_get cols row name =
     (case col_index cols name of
        None \<Rightarrow> Inl (KeyError name)
      | Some k \<Rightarrow> Inr (row ! k))"

text \<open>
  \<open>df[name] = vals\<close>: the column is replaced when the label exists and appended as the
  last column when it does not; a list of the wrong length raises ValueError.
\<close>

definition set_column :: "string \<Rightarrow> cell list \<Rightarrow> dataframe \<Rightarrow> error + dataframe" where
  "set_column name vals df =
     (if length vals \<noteq> length (rows df)
      then Inl (ValueError ''Length of values does not match length of index'')
      else case col_index (columns df) name of
        Some k \<Rightarrow> Inr (df\<lparr>rows := map (\<lambda>(r, v). r[k := v]) (zip (rows df) vals)\<rparr>)
      | None \<Rightarrow> Inr (df\<lparr>columns := columns df @ [name],
                         rows := map (\<lambda>(r, v). r @ [v]) (zip (rows df) vals)\<rparr>))"

text \<open>\<open>pd.to_numeric(..., errors="coerce")\<close> on one cell.\<close>

fun to_numeric :: "library \<Rightarrow> cell \<Rightarrow> cell" where
  "to_numeric L (Num x) = Num x"
| "to_numeric L (Str s) = (case str_to_num L s of Some x \<Rightarrow> Num x | None \<Rightarrow> NaN)"
| "to_numeric L NaN = NaN"

fun isna :: "cell \<Rightarrow> bool" where
  "isna NaN = True"
| "isna _ = False"

text \<open>The sort key of a grade cell; the column is numeric when it is sorted.\<close>

fun grade_key :: "cell \<Rightarrow> rat option" where
  "grade_key (Num x) = Some x"
| "grade_key _ = None"

fun is_text :: "cell \<Rightarrow> bool" where
  "is_text (Str s) = True"
| "is_text _ = False"

text \<open>
  \<open>df.iterrows()\<close>: the values of the Series it yields, row by row.  It takes them from
  \<open>df.values\<close>, an array of the common dtype of the columns: \<open>object\<close> when some column
  holds texts, and then every cell is kept as it is; otherwise a numeric dtype, to which
  the library casts every cell, so that an integer next to a float64 column is read as a
  float64.  The cells of the frame itself are not changed.
\<close>

definition iterrows :: "library \<Rightarrow> dataframe \<Rightarrow> cell list list" where
  "iterrows L df =
     (if list_ex (list_ex is_text) (rows df) then rows df
      else map (map (values_cast L (rows df))) (rows df))"

text \<open>
  \<open>df.sort_values(by=name, ascending=False).reset_index(drop=True)\<close>: a new frame with
  the rows in the order the library chooses.
\<close>

definition sort_values :: "library \<Rightarrow> string \<Rightarrow> dataframe \<Rightarrow> error + dataframe" where
  "sort_values L name df =
     (case get_column name df of
        Inl e \<Rightarrow> Inl e
      | Inr keys \<Rightarrow>
          Inr (df\<lparr>rows := map (\<lambda>i. rows df ! i) (order_grades L (map grade_key keys))\<rparr>))"

text \<open>
  \<open>Series.value_counts(dropna=False).reset_index()\<close>: one pair per distinct value, NaN
  included, in the order of first appearance, then put in the order of the library's sort
  by count.
\<close>

definition uniques :: "cell list \<Rightarrow> cell list" where
  "uniques xs = rev (remdups (rev xs))"

definition value_counts :: "library \<Rightarrow> cell list \<Rightarrow> (cell \<times> nat) list" where
  "value_counts L xs =
     (let groups = map (\<lambda>v. (v, count_list xs v)) (uniques xs)
      in map (\<lambda>i. groups ! i) (order_counts L (map snd groups)))"

section \<open>allocate_students\<close>

definition msg_no_cgpa :: string where
  "msg_no_cgpa = ''No column with name containing 'cgpa' found. Please ensure your CSV has a CGPA column.''"

definition msg_no_pref :: string where
  "msg_no_pref = ''No preference columns found after the CGPA column. At least one preference column is required.''"

text \<open>
  The loop over \<open>df_sorted.iterrows()\<close>, on the rows that \<open>iterrows\<close> yields: \<open>idx\<close> is
  the row's index after \<open>reset_index\<close>, that is its position.
\<close>

fun assign_from :: "string list \<Rightarrow> string list \<Rightarrow> nat \<Rightarrow> cell list list \<Rightarrow> error + cell list" where
  "assign_from cols pref_cols idx [] = Inr []"
| "assign_from cols pref_cols idx (row # rest) =
     (let pref_col = pref_cols ! (idx mod length pref_cols) in
      case row_get cols row pref_col of
        Inl e \<Rightarrow> Inl e
      | Inr assigned_fac \<Rightarrow>
          (case assign_from cols pref_cols (Suc idx) rest of
             Inl e \<Rightarrow> Inl e
           | Inr assigned \<Rightarrow> Inr (assigned_fac # assigned)))"

text \<open>
  The state the call works on: the caller's frame, which \<open>df[cgpa_col] = ...\<close> changes in
  place, and the log.
\<close>

record state =
  caller_df :: dataframe
  log :: "log_entry list"

type_synonym tables = "dataframe \<times> (cell \<times> nat) list"

text \<open>
  \<open>df[cgpa_col] = pd.to_numeric(df[cgpa_col], errors="coerce")\<close>, on the frame the caller
  passed.  When the label is repeated, \<open>df[cgpa_col]\<close> is not a column but the frame of
  all columns with that label, and \<open>to_numeric\<close> raises TypeError on it.
\<close>

definition coerce_grades :: "library \<Rightarrow> string \<Rightarrow> dataframe \<Rightarrow> error + dataframe" where
  "coerce_grades L cgpa_col df =
     (if 1 < count_list (columns df) cgpa_col
      then Inl (TypeError ''arg must be a list, tuple, 1-d array, or Series'')
      else case get_column cgpa_col df of
        Inl e \<Rightarrow> Inl e
      | Inr vals \<Rightarrow> set_column cgpa_col (map (to_numeric L) vals) df)"

text \<open>
  From the sort to the \<open>return\<close>.  \<open>df_sorted\<close> is a new frame, so the column
  \<open>AssignedFaculty\<close> is not set in the caller's.
\<close>

definition build_tables :: "library \<Rightarrow> string \<Rightarrow> string list \<Rightarrow> dataframe \<Rightarrow> error + tables" where
  "build_tables L cgpa_col pref_cols df =
     (case sort_values L cgpa_col df of
        Inl e \<Rightarrow> Inl e
      | Inr df_sorted \<Rightarrow>
     (case assign_from (columns df_sorted) pref_cols 0 (iterrows L df_sorted) of
        Inl e \<Rightarrow> Inl e
      | Inr assigned \<Rightarrow>
     (case set_column ''AssignedFaculty'' assigned df_sorted of
        Inl e \<Rightarrow> Inl e
      | Inr allocation_df \<Rightarrow>
     (case get_column ''AssignedFaculty'' allocation_df of
        Inl e \<Rightarrow> Inl e
      | Inr assigned_col \<Rightarrow> Inr (allocation_df, value_counts L assigned_col)))))"

text \<open>The part of the body after the two checks and the first log entry.\<close>

definition allocate_rows :: "library \<Rightarrow> string \<Rightarrow> string list \<Rightarrow> state \<Rightarrow> (error + tables) \<times> state" where
  "allocate_rows L cgpa_col pref_cols st =
     (case coerce_grades L cgpa_col (caller_df st) of
        Inl e \<Rightarrow> (Inl e, st)
      | Inr df1 \<Rightarrow>
          (let st1 = st\<lparr>caller_df := df1\<rparr> in
           case get_column cgpa_col df1 of
             Inl e \<Rightarrow> (Inl e, st1)
           | Inr grades \<Rightarrow>
               (let st2 = (if list_ex isna grades
                           then st1\<lparr>log := log st1 @ [Warning_nan]\<rparr> else st1)
                in (build_tables L cgpa_col pref_cols df1, st2))))"

text \<open>The body of the \<open>try\<close> block.\<close>

definition allocate_body :: "library \<Rightarrow> state \<Rightarrow> (error + tables) \<times> state" where
  "allocate_body L st =
     (let cols = columns (caller_df st) in
      case find_cgpa_col cols of
        None \<Rightarrow> (Inl (ValueError msg_no_cgpa), st)
      | Some cgpa_idx \<Rightarrow>
          (let pref_cols = drop (cgpa_idx + 1) cols in
           if length pref_cols = 0 then (Inl (ValueError msg_no_pref), st)
           else
             (let n = length pref_cols;
                  st0 = st\<lparr>log := log st @ [Info_detected cgpa_idx (cols ! cgpa_idx) pref_cols n]\<rparr>
              in allocate_rows L (cols ! cgpa_idx) pref_cols st0)))"

text \<open>
  \<open>allocate_students(df)\<close>: the \<open>except Exception\<close> handler logs the exception and
  raises it again.
\<close>

definition allocate_students :: "library \<Rightarrow> state \<Rightarrow> (error + tables) \<times> state" where
  "allocate_students L st =
     (case allocate_body L st of
        (Inl e, st') \<Rightarrow> (Inl e, st'\<lparr>log := log st' @ [Exception_logged e]\<rparr>)
      | (Inr r, st') \<Rightarrow> (Inr r, st'))"

section \<open>What the library's sorts promise\<close>

text \<open>
  \<open>may_precede a b\<close>: in descending order with NaN last, a row with key \<open>a\<close> may stand
  before a row with key \<open>b\<close>.
\<close>

definition may_precede :: "rat option \<Rightarrow> rat option \<Rightarrow> bool" where
  "may_precede a b =
     (case b of None \<Rightarrow> True | Some y \<Rightarrow> (case a of None \<Rightarrow> False | Some x \<Rightarrow> y \<le> x))"

definition count_ge :: "nat \<Rightarrow> nat \<Rightarrow> bool" where
  "count_ge a b = (b \<le> a)"

text \<open>
  \<open>is_order ge ord\<close>: for every list of keys, \<open>ord\<close> returns each position once, and the
  keys along it are in the order \<open>ge\<close>.  This is all that pandas documents for
  \<open>kind="quicksort"\<close>; it does not say which of two rows with equal keys comes first.
\<close>

definition is_order :: "('k \<Rightarrow> 'k \<Rightarrow> bool) \<Rightarrow> ('k list \<Rightarrow> nat list) \<Rightarrow> bool" where
  "is_order ge ord =
     (\<forall>ks. mset (ord ks) = mset [0..<length ks] \<and> sorted_wrt (\<lambda>i j. ge (ks ! i) (ks ! j)) (ord ks))"

definition lib_ok :: "library \<Rightarrow> bool" where
  "lib_ok L = (is_order may_precede (order_grades L) \<and> is_order count_ge (order_counts L))"

section \<open>Two libraries that keep the promise\<close>

text \<open>Insertion of a position into a list of positions ordered by their keys.\<close>

fun insert_idx :: "('k \<Rightarrow> 'k \<Rightarrow> bool) \<Rightarrow> 'k list \<Rightarrow> nat \<Rightarrow> nat list \<Rightarrow> nat list" where
  "insert_idx ge ks i [] = [i]"
| "insert_idx ge ks i (j # js) =
     (if ge (ks ! i) (ks ! j) then i # j # js else j # insert_idx ge ks i js)"

text \<open>
  Insertion sort of the positions: taken from the last to the first it keeps rows with
  equal keys in their old order, taken from the first to the last it reverses them.
\<close>

definition stable_order :: "('k \<Rightarrow> 'k \<Rightarrow> bool) \<Rightarrow> 'k list \<Rightarrow> nat list" where
  "stable_order ge ks = foldr (insert_idx ge ks) [0..<length ks] []"

definition reversing_order :: "('k \<Rightarrow> 'k \<Rightarrow> bool) \<Rightarrow> 'k list \<Rightarrow> nat list" where
  "reversing_order ge ks = foldr (insert_idx ge ks) (rev [0..<length ks]) []"

text \<open>
  A reader of plain decimal literals (digits, then possibly a point and digits); every
  other text is not a number.  pandas reads more (signs, exponents, blanks); the examples
  below stay within the literals.
\<close>

definition digit_of :: "char \<Rightarrow> nat option" where
  "digit_of c =
     (let k = (of_char c :: nat) in if 48 \<le> k \<and> k \<le> 57 then Some (k - 48) else None)"

fun digits_val :: "nat \<Rightarrow> string \<Rightarrow> nat option" where
  "digits_val acc [] = Some acc"
| "digits_val acc (c # cs) =
     (case digit_of c of None \<Rightarrow> None | Some d \<Rightarrow> digits_val (10 * acc + d) cs)"

definition plain_decimal :: "string \<Rightarrow> rat option" where
  "plain_decimal s =
     (let ip = takeWhile (\<lambda>c. c \<noteq> CHR ''.'') s;
          rest = dropWhile (\<lambda>c. c \<noteq> CHR ''.'') s
      in if ip = [] then None
         else case digits_val 0 ip of
           None \<Rightarrow> None
         | Some a \<Rightarrow>
             (case rest of
                [] \<Rightarrow> Some (of_nat a)
              | _ # fp \<Rightarrow>
                  (if fp = [] then None
                   else case digits_val 0 fp of
                     None \<Rightarrow> None
                   | Some b \<Rightarrow> Some (of_nat a + of_nat b / 10 ^ length fp))))"

text \<open>
  The cast of an int64 to float64: the nearest number with 53 significant bits, the even
  one of two that are equally near.  \<open>extra_bits\<close> counts the bits that a number has
  beyond 53; an int64 has at most eleven of them.
\<close>

primrec extra_bits :: "nat \<Rightarrow> int \<Rightarrow> nat" where
  "extra_bits 0 a = 0"
| "extra_bits (Suc f) a = (if a < 2 ^ 53 then 0 else Suc (extra_bits f (a div 2)))"

definition round_float64 :: "int \<Rightarrow> int" where
  "round_float64 i =
     (let a = \<bar>i\<bar>; e = extra_bits 11 a
      in if e = 0 then i
         else
           (let q = a div 2 ^ e; r = a mod 2 ^ e; h = 2 ^ (e - 1);
                q' = (if h < r \<or> (r = h \<and> odd q) then q + 1 else q)
            in sgn i * (q' * 2 ^ e)))"

text \<open>
  A cell that only a float64 column can hold: NaN, or a number that is not an integer.
\<close>

fun is_fraction :: "cell \<Rightarrow> bool" where
  "is_fraction (Num x) = (x \<noteq> of_int \<lfloor>x\<rfloor>)"
| "is_fraction NaN = True"
| "is_fraction (Str s) = False"

text \<open>
  The cast to the common dtype of an all-numeric frame: float64 when the frame shows a
  float64 column, and then the integers are rounded; a frame of integers only is taken
  for a frame of int64 columns, which keeps them.
\<close>

definition float64_cast :: "cell list list \<Rightarrow> cell \<Rightarrow> cell" where
  "float64_cast rs c =
     (case c of
        Num x \<Rightarrow>
          (if x = of_int \<lfloor>x\<rfloor> \<and> list_ex (list_ex is_fraction) rs
           then Num (of_int (round_float64 \<lfloor>x\<rfloor>)) else Num x)
      | Str s \<Rightarrow> Str s
      | NaN \<Rightarrow> NaN)"

definition stable_lib :: library where
  "stable_lib =
     \<lparr>str_to_num = plain_decimal,
      order_grades = stable_order may_precede,
      order_counts = stable_order count_ge,
      values_cast = float64_cast\<rparr>"

definition reversing_lib :: library where
  "reversing_lib =
     \<lparr>str_to_num = plain_decimal,
      order_grades = reversing_order may_precede,
      order_counts = reversing_order count_ge,
      values_cast = float64_cast\<rparr>"

section \<open>Example datasets\<close>

text \<open>The dataset of the end-to-end scenario: header Name, CGPA, Pref1, Pref2.\<close>

definition df_example :: dataframe where
  "df_example = \<lparr>columns = [''Name'', ''CGPA'', ''Pref1'', ''Pref2''],
                  rows = [[Str ''A'', Num 9, Str ''FacX'', Str ''FacY''],
                          [Str ''B'', Num 7, Str ''FacY'', Str ''FacX''],
                          [Str ''C'', Num (17 / 2), Str ''FacX'', Str ''FacZ'']]\<rparr>"

text \<open>A dataset with no grade column.\<close>

definition df_no_cgpa :: dataframe where
  "df_no_cgpa = \<lparr>columns = [''Name'', ''Score'', ''Pref1''],
                  rows = [[Str ''A'', Num 9, Str ''FacX'']]\<rparr>"

text \<open>A dataset whose grade column holds texts: one is not a number.\<close>

definition df_text_grade :: dataframe where
  "df_text_grade = \<lparr>columns = [''Name'', ''CGPA'', ''Pref1''],
                     rows = [[Str ''A'', Str ''abc'', Str ''FacX''],
                             [Str ''B'', Str ''8.5'', Str ''FacY'']]\<rparr>"

text \<open>A dataset with a header and no data rows.\<close>

definition df_no_rows :: dataframe where
  "df_no_rows = \<lparr>columns = [''Name'', ''CGPA'', ''Pref1'', ''Pref2''], rows = []\<rparr>"

text \<open>A dataset that already has a column named \<open>AssignedFaculty\<close>.\<close>

definition df_clash :: dataframe where
  "df_clash = \<lparr>columns = [''AssignedFaculty'', ''CGPA'', ''Pref1''],
                rows = [[Str ''DrRao'', Num 9, Str ''FacX'']]\<rparr>"

text \<open>Eighteen rows with the same grade, numbered in input order.\<close>

definition df_ties :: dataframe where
  "df_ties = \<lparr>columns = [''Roll'', ''CGPA'', ''Pref1''],
               rows = map (\<lambda>i. [Num (of_nat i), Num 8, Str ''FacX'']) [0..<18]\<rparr>"


text \<open>A frame, not one that \<open>read_csv\<close> gives, that repeats the label of the grade column.\<close>

definition df_dup_grade :: dataframe where
  "df_dup_grade = \<lparr>columns = [''CGPA'', ''CGPA'', ''Pref1''],
                    rows = [[Num 9, Num 8, Str ''FacX'']]\<rparr>"

text \<open>A dataset with missing preferences.\<close>

definition df_missing_pref :: dataframe where
  "df_missing_pref = \<lparr>columns = [''Name'', ''CGPA'', ''Pref1''],
                       rows = [[Str ''A'', Num 9, NaN],
                               [Str ''B'', Num 8, Str ''FacX''],
                               [Str ''C'', Num 7, NaN]]\<rparr>"

section \<open>Basic facts\<close>

lemma starts_with_iff: "starts_with p s \<longleftrightarrow> (\<exists>ss. s = p @ ss)"
  by (induction p s rule: starts_with.induct) auto

lemma contains_iff: "contains sub s \<longleftrightarrow> (\<exists>ps ss. s = ps @ sub @ ss)"
proof (induction s)
  case Nil
  show ?case by (cases sub) auto
next
  case (Cons c cs)
  have "(\<exists>ps ss. c # cs = ps @ sub @ ss) \<longleftrightarrow>
        (\<exists>ss. c # cs = sub @ ss) \<or> (\<exists>ps ss. cs = ps @ sub @ ss)"
    by (auto simp: Cons_eq_append_conv) 
  with Cons show ?case by (simp add: starts_with_iff)
qed

lemma find_cgpa_from_None:
  "find_cgpa_from i cs = None \<longleftrightarrow> (\<forall>c\<in>set cs. \<not> contains ''cgpa'' (lower c))"
  by (induction cs arbitrary: i) auto

lemma find_cgpa_from_Some:
  "find_cgpa_from i cs = Some k \<longleftrightarrow>
     (i \<le> k \<and> k - i < length cs \<and> contains ''cgpa'' (lower (cs ! (k - i))) \<and>
      (\<forall>j<k - i. \<not> contains ''cgpa'' (lower (cs ! j))))"
proof (induction cs arbitrary: i)
  case Nil
  show ?case by simp
next
  case (Cons c cs)
  show ?case
  proof (cases "contains ''cgpa'' (lower c)")
    case True
    have "k - i = 0" if "\<forall>j<k - i. \<not> contains ''cgpa'' (lower ((c # cs) ! j))"
      using that True by (cases "k - i") auto
    with True show ?thesis by auto
  next
    case False
    have "find_cgpa_from i (c # cs) = Some k \<longleftrightarrow> find_cgpa_from (Suc i) cs = Some k"
      using False by simp
    also have "\<dots> \<longleftrightarrow> (Suc i \<le> k \<and> k - Suc i < length cs \<and>
        contains ''cgpa'' (lower (cs ! (k - Suc i))) \<and>
        (\<forall>j<k - Suc i. \<not> contains ''cgpa'' (lower (cs ! j))))"
      by (rule Cons.IH)
    also have "\<dots> \<longleftrightarrow> (i \<le> k \<and> k - i < length (c # cs) \<and>
        contains ''cgpa'' (lower ((c # cs) ! (k - i))) \<and>
        (\<forall>j<k - i. \<not> contains ''cgpa'' (lower ((c # cs) ! j))))"
    proof (cases "k - i")
      case 0
      then show ?thesis using False by auto
    next
      case (Suc m)
      then have km: "k - Suc i = m" "Suc i \<le> k" "i \<le> k" by auto
      have "(\<forall>j<m. \<not> contains ''cgpa'' (lower (cs ! j))) \<longleftrightarrow>
            (\<forall>j<Suc m. \<not> contains ''cgpa'' (lower ((c # cs) ! j)))"
        using False by (auto simp: less_Suc_eq_0_disj)
      then show ?thesis using Suc km by simp
    qed
    finally show ?thesis .
  qed
qed

lemma col_index_None: "col_index cols name = None \<longleftrightarrow> name \<notin> set cols"
  by (induction cols) auto

lemma col_index_SomeD:
  "col_index cols name = Some k \<Longrightarrow> k < length cols \<and> cols ! k = name"
  by (induction cols arbitrary: k) (auto split: if_splits)

lemma col_index_nth:
  "distinct cols \<Longrightarrow> k < length cols \<Longrightarrow> col_index cols (cols ! k) = Some k"
proof (induction cols arbitrary: k)
  case Nil
  then show ?case by simp
next
  case (Cons c cs)
  then show ?case by (cases k) auto
qed

lemma col_index_first:
  "k < length cols \<Longrightarrow> \<forall>j<k. cols ! j \<noteq> cols ! k \<Longrightarrow> col_index cols (cols ! k) = Some k"
proof (induction cols arbitrary: k)
  case Nil
  then show ?case by simp
next
  case (Cons c cs)
  show ?case
  proof (cases k)
    case 0
    then show ?thesis by simp
  next
    case (Suc m)
    have "c \<noteq> cs ! m" using Cons.prems(2) Suc by auto
    moreover have "\<forall>j<m. cs ! j \<noteq> cs ! m" using Cons.prems(2) Suc by auto
    ultimately show ?thesis using Cons.IH[of m] Cons.prems(1) Suc by simp
  qed
qed

lemma col_index_append_new:
  "name \<notin> set cols \<Longrightarrow> col_index (cols @ [name]) name = Some (length cols)"
  by (induction cols) auto

lemma is_order_length: "is_order ge ord \<Longrightarrow> length (ord ks) = length ks"
  unfolding is_order_def by (metis mset_eq_length length_upt minus_nat.diff_0)

lemma is_order_set: "is_order ge ord \<Longrightarrow> set (ord ks) = {0..<length ks}"
  unfolding is_order_def by (metis mset_eq_setD set_upt)

lemma is_order_distinct: "is_order ge ord \<Longrightarrow> distinct (ord ks)"
  unfolding is_order_def by (metis mset_eq_imp_distinct_iff distinct_upt)

lemma is_order_sorted:
  "is_order ge ord \<Longrightarrow> sorted_wrt (\<lambda>i j. ge (ks ! i) (ks ! j)) (ord ks)"
  unfolding is_order_def by blast

lemma mset_insert_idx: "mset (insert_idx ge ks i js) = add_mset i (mset js)"
  by (induction js) auto

lemma set_insert_idx: "set (insert_idx ge ks i js) = insert i (set js)"
  by (induction js) auto

lemma sorted_insert_idx:
  assumes tot: "\<And>a b. ge a b \<or> ge b a" and tr: "\<And>a b c. ge a b \<Longrightarrow> ge b c \<Longrightarrow> ge a c"
  shows "sorted_wrt (\<lambda>i j. ge (ks ! i) (ks ! j)) js \<Longrightarrow>
         sorted_wrt (\<lambda>i j. ge (ks ! i) (ks ! j)) (insert_idx ge ks i js)"
proof (induction js)
  case Nil
  then show ?case by simp
next
  case (Cons j js)
  show ?case
  proof (cases "ge (ks ! i) (ks ! j)")
    case True
    then have "\<forall>x\<in>set js. ge (ks ! i) (ks ! x)" using Cons.prems tr by auto
    with True Cons.prems show ?thesis by simp
  next
    case False
    then have "ge (ks ! j) (ks ! i)" using tot by blast
    with False Cons show ?thesis by (auto simp: set_insert_idx)
  qed
qed

lemma insertion_is_sorted:
  assumes tot: "\<And>a b. ge a b \<or> ge b a" and tr: "\<And>a b c. ge a b \<Longrightarrow> ge b c \<Longrightarrow> ge a c"
  shows "sorted_wrt (\<lambda>i j. ge (ks ! i) (ks ! j)) (foldr (insert_idx ge ks) is [])"
  by (induction "is") (auto intro: sorted_insert_idx[OF tot tr])

lemma insertion_mset: "mset (foldr (insert_idx ge ks) is []) = mset is"
  by (induction "is") (auto simp: mset_insert_idx)

lemma is_order_stable:
  assumes tot: "\<And>a b. ge a b \<or> ge b a" and tr: "\<And>a b c. ge a b \<Longrightarrow> ge b c \<Longrightarrow> ge a c"
  shows "is_order ge (stable_order ge)"
  unfolding is_order_def stable_order_def
  by (intro allI conjI insertion_is_sorted[OF tot tr]) (simp add: insertion_mset)

lemma is_order_reversing:
  assumes tot: "\<And>a b. ge a b \<or> ge b a" and tr: "\<And>a b c. ge a b \<Longrightarrow> ge b c \<Longrightarrow> ge a c"
  shows "is_order ge (reversing_order ge)"
  unfolding is_order_def reversing_order_def
  by (intro allI conjI insertion_is_sorted[OF tot tr]) (simp add: insertion_mset)

lemma may_precede_total: "may_precede a b \<or> may_precede b a"
  by (auto simp: may_precede_def split: option.splits)

lemma may_precede_trans: "may_precede a b \<Longrightarrow> may_precede b c \<Longrightarrow> may_precede a c"
  by (auto simp: may_precede_def split: option.splits)

lemma lib_ok_stable_lib: "lib_ok stable_lib"
  unfolding lib_ok_def stable_lib_def
  by (auto intro!: is_order_stable may_precede_total simp: count_ge_def elim: may_precede_trans)

lemma lib_ok_reversing_lib: "lib_ok reversing_lib"
  unfolding lib_ok_def reversing_lib_def
  by (auto intro!: is_order_reversing may_precede_total simp: count_ge_def elim: may_precede_trans)

lemma find_cgpa_col_index:
  assumes "find_cgpa_col cols = Some g"
  shows "g < length cols" and "col_index cols (cols ! g) = Some g"
proof -
  from assms have a: "g < length cols" "contains ''cgpa'' (lower (cols ! g))"
    "\<forall>j<g. \<not> contains ''cgpa'' (lower (cols ! j))"
    by (simp_all add: find_cgpa_col_def find_cgpa_from_Some)
  show "g < length cols" by (rule a(1))
  have "\<forall>j<g. cols ! j \<noteq> cols ! g" using a(2,3) by metis
  then show "col_index cols (cols ! g) = Some g" using a(1) by (rule col_index_first[rotated])
qed

lemma col_index_mem: "name \<in> set cols \<Longrightarrow> \<exists>k. col_index cols name = Some k"
  using col_index_None[of cols name] by (cases "col_index cols name") auto

lemma get_column_at:
  "col_index (columns df) name = Some k \<Longrightarrow> get_column name df = Inr (map (\<lambda>r. r ! k) (rows df))"
  by (simp add: get_column_def)

lemma map_zip_same: "map (\<lambda>(r, v). f r v) (zip rs (map h rs)) = map (\<lambda>r. f r (h r)) rs"
  by (induction rs) auto

lemma distinct_count_list: "distinct xs \<Longrightarrow> \<not> 1 < count_list xs x"
  by (induction xs) (auto simp: count_list_0_iff)

lemma coerce_grades_at:
  "col_index (columns df) name = Some k \<Longrightarrow> \<not> 1 < count_list (columns df) name \<Longrightarrow>
   coerce_grades L name df = Inr (df\<lparr>rows := map (\<lambda>r. r[k := to_numeric L (r ! k)]) (rows df)\<rparr>)"
  using map_zip_same[of "\<lambda>r v. r[k := v]" "rows df" "\<lambda>r. to_numeric L (r ! k)"]
  by (simp add: coerce_grades_def get_column_def set_column_def comp_def)

lemma iterrows_length: "length (iterrows L df) = length (rows df)"
  by (simp add: iterrows_def)


lemma sort_values_at:
  "col_index (columns df) name = Some k \<Longrightarrow>
   sort_values L name df =
     Inr (df\<lparr>rows := map (\<lambda>i. rows df ! i) (order_grades L (map (\<lambda>r. grade_key (r ! k)) (rows df)))\<rparr>)"
  by (simp add: sort_values_def get_column_def comp_def)

lemma assign_from_eq:
  assumes "pref_cols \<noteq> []" and "set pref_cols \<subseteq> set cols"
  shows "assign_from cols pref_cols idx rs =
     Inr (map (\<lambda>(j, row). row ! the (col_index cols (pref_cols ! (j mod length pref_cols))))
            (zip [idx..<idx + length rs] rs))"
proof (induction rs arbitrary: idx)
  case Nil
  show ?case by simp
next
  case (Cons row rest)
  have "pref_cols ! (idx mod length pref_cols) \<in> set cols"
    using assms by (simp add: subset_iff)
  then obtain k where k: "col_index cols (pref_cols ! (idx mod length pref_cols)) = Some k"
    using col_index_mem by blast
  have u: "[idx..<idx + length (row # rest)] = idx # [Suc idx..<Suc idx + length rest]"
    using upt_conv_Cons[of idx "idx + Suc (length rest)"] by simp
  show ?case
    unfolding u using k Cons.IH[of "Suc idx"] by (simp add: row_get_def Let_def)
qed

lemma set_column_Inr:
  "length vals = length (rows df) \<Longrightarrow> \<exists>df'. set_column name vals df = Inr df' \<and>
     name \<in> set (columns df') \<and> length (rows df') = length (rows df)"
  by (cases "col_index (columns df) name")
     (auto simp: set_column_def dest: col_index_SomeD)

lemma map_append_last:
  "length vals = length rs \<Longrightarrow> \<forall>r\<in>set rs. length r = n \<Longrightarrow>
   map (\<lambda>r. r ! n) (map (\<lambda>(r, v). r @ [v]) (zip rs vals)) = vals"
proof (induction rs arbitrary: vals)
  case Nil
  then show ?case by simp
next
  case (Cons r rs)
  then show ?case by (cases vals) auto
qed

lemma map_update_at:
  "length vals = length rs \<Longrightarrow> \<forall>r\<in>set rs. k < length r \<Longrightarrow>
   map (\<lambda>r. r ! k) (map (\<lambda>(r, v). r[k := v]) (zip rs vals)) = vals"
proof (induction rs arbitrary: vals)
  case Nil
  then show ?case by simp
next
  case (Cons r rs)
  then show ?case by (cases vals) auto
qed

lemma set_then_get_column:
  assumes "length vals = length (rows df)"
      and "\<forall>r\<in>set (rows df). length r = length (columns df)"
      and "set_column name vals df = Inr df'"
  shows "get_column name df' = Inr vals"
proof (cases "col_index (columns df) name")
  case None
  then have "name \<notin> set (columns df)" by (simp add: col_index_None)
  then have "col_index (columns df @ [name]) name = Some (length (columns df))"
    by (rule col_index_append_new)
  moreover have "df' = df\<lparr>columns := columns df @ [name],
      rows := map (\<lambda>(r, v). r @ [v]) (zip (rows df) vals)\<rparr>"
    using assms(1,3) None by (simp add: set_column_def)
  ultimately show ?thesis
    using map_append_last[OF assms(1,2)] by (simp add: get_column_def)
next
  case (Some k)
  then have "k < length (columns df)" by (auto dest: col_index_SomeD)
  then have "\<forall>r\<in>set (rows df). k < length r" using assms(2) by simp
  moreover have "df' = df\<lparr>rows := map (\<lambda>(r, v). r[k := v]) (zip (rows df) vals)\<rparr>"
    using assms(1,3) Some by (simp add: set_column_def)
  ultimately show ?thesis
    using map_update_at[OF assms(1)] Some by (simp add: get_column_def)
qed

lemma set_column_new:
  assumes "name \<notin> set (columns df)" and "length vals = length (rows df)"
  shows "set_column name vals df =
     Inr (df\<lparr>columns := columns df @ [name], rows := map (\<lambda>(r, v). r @ [v]) (zip (rows df) vals)\<rparr>)"
  using assms col_index_None[of "columns df" name] by (simp add: set_column_def)

lemma map_butlast_snoc:
  "length vals = length rs \<Longrightarrow> map butlast (map (\<lambda>(r, v). r @ [v]) (zip rs vals)) = rs"
proof (induction rs arbitrary: vals)
  case Nil
  then show ?case by simp
next
  case (Cons r rs)
  then show ?case by (cases vals) auto
qed


lemma to_numeric_idem: "to_numeric L (to_numeric L c) = to_numeric L c"
  by (cases c) (auto split: option.splits)

lemma coerce_row_idem:
  "r[g := to_numeric L (r[g := to_numeric L (r ! g)] ! g)] = r[g := to_numeric L (r ! g)]"
  by (cases "g < length r") (simp_all add: to_numeric_idem list_update_beyond)

lemma is_order_nth_mset:
  assumes "is_order ge ord" and "length ks = length xs"
  shows "mset (map (\<lambda>i. xs ! i) (ord ks)) = mset xs"
proof -
  have "mset (ord ks) = mset [0..<length xs]"
    using assms by (simp add: is_order_def)
  then have "mset (map (\<lambda>i. xs ! i) (ord ks)) = mset (map (\<lambda>i. xs ! i) [0..<length xs])"
    by (metis mset_map)
  then show ?thesis by (simp add: map_nth)
qed

lemma col_index_pref:
  assumes "distinct cols" and "m < length (drop (g + 1) cols)"
  shows "col_index cols (drop (g + 1) cols ! m) = Some (g + 1 + m)"
proof -
  have "g + 1 + m < length cols" using assms(2) by simp
  then show ?thesis using col_index_nth[OF assms(1), of "g + 1 + m"] by simp
qed

section \<open>The run of allocate_students\<close>

lemma build_tables_Inr:
  assumes "name \<in> set (columns df)" and "pref_cols \<noteq> []" and "set pref_cols \<subseteq> set (columns df)"
  shows "\<exists>t. build_tables L name pref_cols df = Inr t"
proof -
  obtain k where k: "col_index (columns df) name = Some k"
    using assms(1) col_index_mem by blast
  define df_sorted where "df_sorted =
    df\<lparr>rows := map (\<lambda>i. rows df ! i) (order_grades L (map (\<lambda>r. grade_key (r ! k)) (rows df)))\<rparr>"
  have s: "sort_values L name df = Inr df_sorted"
    unfolding df_sorted_def using k by (rule sort_values_at)
  have c: "columns df_sorted = columns df" by (simp add: df_sorted_def)
  obtain assigned where a: "assign_from (columns df_sorted) pref_cols 0 (iterrows L df_sorted) = Inr assigned"
    and la: "length assigned = length (rows df_sorted)"
    using assign_from_eq[OF assms(2), of "columns df_sorted" 0 "iterrows L df_sorted"] assms(3) c
    by (simp add: iterrows_length)
  obtain alloc where al: "set_column ''AssignedFaculty'' assigned df_sorted = Inr alloc"
    and mem: "''AssignedFaculty'' \<in> set (columns alloc)"
    using set_column_Inr[OF la] by blast
  obtain j where "col_index (columns alloc) ''AssignedFaculty'' = Some j"
    using mem col_index_mem by blast
  then have "get_column ''AssignedFaculty'' alloc = Inr (map (\<lambda>r. r ! j) (rows alloc))"
    by (rule get_column_at)
  then show ?thesis
    using s a al by (simp add: build_tables_def)
qed

lemma allocate_rows_ok:
  assumes k: "col_index (columns (caller_df st)) name = Some k"
      and once: "\<not> 1 < count_list (columns (caller_df st)) name"
      and t: "build_tables L name pref_cols
                ((caller_df st)\<lparr>rows := map (\<lambda>r. r[k := to_numeric L (r ! k)]) (rows (caller_df st))\<rparr>) = Inr t"
  shows "allocate_rows L name pref_cols st =
     (Inr t,
      st\<lparr>caller_df := (caller_df st)\<lparr>rows := map (\<lambda>r. r[k := to_numeric L (r ! k)]) (rows (caller_df st))\<rparr>,
         log := log st @
           (if list_ex isna (map (\<lambda>r. r[k := to_numeric L (r ! k)] ! k) (rows (caller_df st)))
            then [Warning_nan] else [])\<rparr>)"
proof -
  let ?df1 = "(caller_df st)\<lparr>rows := map (\<lambda>r. r[k := to_numeric L (r ! k)]) (rows (caller_df st))\<rparr>"
  have c: "coerce_grades L name (caller_df st) = Inr ?df1"
    using k once by (rule coerce_grades_at)
  have "col_index (columns ?df1) name = Some k" using k by simp
  then have g: "get_column name ?df1 = Inr (map (\<lambda>r. r ! k) (rows ?df1))"
    by (rule get_column_at)
  show ?thesis
    unfolding allocate_rows_def c using g t by (simp add: Let_def comp_def)
qed

lemma allocate_students_accepted:
  assumes f: "find_cgpa_col (columns (caller_df st)) = Some g"
      and p: "drop (g + 1) (columns (caller_df st)) \<noteq> []"
      and d: "distinct (columns (caller_df st))"
  shows "\<exists>t. build_tables L (columns (caller_df st) ! g) (drop (g + 1) (columns (caller_df st)))
                ((caller_df st)\<lparr>rows := map (\<lambda>r. r[g := to_numeric L (r ! g)]) (rows (caller_df st))\<rparr>) = Inr t \<and>
     allocate_students L st =
       (Inr t,
        st\<lparr>caller_df := (caller_df st)\<lparr>rows := map (\<lambda>r. r[g := to_numeric L (r ! g)]) (rows (caller_df st))\<rparr>,
           log := log st @
             [Info_detected g (columns (caller_df st) ! g) (drop (g + 1) (columns (caller_df st)))
                (length (drop (g + 1) (columns (caller_df st))))] @
             (if list_ex isna (map (\<lambda>r. r[g := to_numeric L (r ! g)] ! g) (rows (caller_df st)))
              then [Warning_nan] else [])\<rparr>)"
proof -
  let ?cols = "columns (caller_df st)"
  let ?df1 = "(caller_df st)\<lparr>rows := map (\<lambda>r. r[g := to_numeric L (r ! g)]) (rows (caller_df st))\<rparr>"
  let ?st0 = "st\<lparr>log := log st @ [Info_detected g (?cols ! g) (drop (g + 1) ?cols) (length (drop (g + 1) ?cols))]\<rparr>"
  have gl: "g < length ?cols" and k: "col_index ?cols (?cols ! g) = Some g"
    using find_cgpa_col_index[OF f] by auto
  have "?cols ! g \<in> set (columns ?df1)" using gl by simp
  moreover have "set (drop (g + 1) ?cols) \<subseteq> set (columns ?df1)"
    using set_drop_subset[of "g + 1" ?cols] by simp
  ultimately obtain t where t: "build_tables L (?cols ! g) (drop (g + 1) ?cols) ?df1 = Inr t"
    using build_tables_Inr[OF _ p] by blast
  have k0: "col_index (columns (caller_df ?st0)) (?cols ! g) = Some g" using k by simp
  have o0: "\<not> 1 < count_list (columns (caller_df ?st0)) (?cols ! g)"
    using distinct_count_list[OF d] by simp
  have t0: "build_tables L (?cols ! g) (drop (g + 1) ?cols)
      ((caller_df ?st0)\<lparr>rows := map (\<lambda>r. r[g := to_numeric L (r ! g)]) (rows (caller_df ?st0))\<rparr>) = Inr t"
    using t by simp
  have b: "allocate_body L st = allocate_rows L (?cols ! g) (drop (g + 1) ?cols) ?st0"
    using f p by (simp add: allocate_body_def Let_def)
  show ?thesis
    unfolding allocate_students_def b allocate_rows_ok[OF k0 o0 t0] using t by simp
qed

lemma allocate_students_rejected:
  assumes "find_cgpa_col (columns (caller_df st)) = None \<or>
           (\<exists>g. find_cgpa_col (columns (caller_df st)) = Some g \<and> drop (g + 1) (columns (caller_df st)) = [])"
  defines "m \<equiv> (if find_cgpa_col (columns (caller_df st)) = None then msg_no_cgpa else msg_no_pref)"
  shows "allocate_body L st = (Inl (ValueError m), st)"
    and "allocate_students L st =
           (Inl (ValueError m), st\<lparr>log := log st @ [Exception_logged (ValueError m)]\<rparr>)"
  using assms by (auto simp: allocate_students_def allocate_body_def Let_def)

lemma run_pair: "fst (allocate_students L st) = Inr t \<Longrightarrow>
  allocate_students L st = (Inr t, snd (allocate_students L st))"
  by (metis prod.collapse)

lemma build_tables_wf:
  assumes d: "distinct (columns df)"
      and r: "\<forall>r\<in>set (rows df). length r = length (columns df)"
      and ord: "is_order may_precede (order_grades L)"
      and k: "col_index (columns df) name = Some g"
      and pc: "pref_cols = drop (g + 1) (columns df)" "pref_cols \<noteq> []"
  defines "ranked \<equiv> map (\<lambda>i. rows df ! i) (order_grades L (map (\<lambda>r. grade_key (r ! g)) (rows df)))"
  defines "assigned \<equiv> map (\<lambda>(j, row). row ! (g + 1 + j mod length pref_cols))
                      (zip [0..<length ranked] (iterrows L (df\<lparr>rows := ranked\<rparr>)))"
  shows "\<exists>alloc. sort_values L name df = Inr (df\<lparr>rows := ranked\<rparr>) \<and>
           set_column ''AssignedFaculty'' assigned (df\<lparr>rows := ranked\<rparr>) = Inr alloc \<and>
           get_column ''AssignedFaculty'' alloc = Inr assigned \<and>
           build_tables L name pref_cols df = Inr (alloc, value_counts L assigned)"
    and "mset ranked = mset (rows df)"
    and "\<forall>r\<in>set ranked. length r = length (columns df)"
proof -
  show m: "mset ranked = mset (rows df)"
    unfolding ranked_def by (rule is_order_nth_mset[OF ord]) simp
  then have "set ranked = set (rows df)" by (rule mset_eq_setD)
  then show rr: "\<forall>r\<in>set ranked. length r = length (columns df)" using r by simp
  have s: "sort_values L name df = Inr (df\<lparr>rows := ranked\<rparr>)"
    unfolding ranked_def using k by (rule sort_values_at)
  have sub: "set pref_cols \<subseteq> set (columns df)"
    unfolding pc(1) by (rule set_drop_subset)
  have "map (\<lambda>(j, row). row ! the (col_index (columns df) (pref_cols ! (j mod length pref_cols))))
          (zip [0..<0 + length (iterrows L (df\<lparr>rows := ranked\<rparr>))]
               (iterrows L (df\<lparr>rows := ranked\<rparr>))) = assigned"
    unfolding assigned_def
  proof (rule map_cong[OF _ ], simp add: iterrows_length, clarify)
    fix j row
    have "j mod length pref_cols < length (drop (g + 1) (columns df))"
      using pc by simp
    then have "col_index (columns df) (pref_cols ! (j mod length pref_cols)) =
        Some (g + 1 + j mod length pref_cols)"
      unfolding pc(1) by (rule col_index_pref[OF d])
    then show "row ! the (col_index (columns df) (pref_cols ! (j mod length pref_cols))) =
        row ! (g + 1 + j mod length pref_cols)" by simp
  qed
  then have a: "assign_from (columns df) pref_cols 0 (iterrows L (df\<lparr>rows := ranked\<rparr>)) = Inr assigned"
    using assign_from_eq[OF pc(2) sub, of 0 "iterrows L (df\<lparr>rows := ranked\<rparr>)"] by simp
  have la: "length assigned = length (rows (df\<lparr>rows := ranked\<rparr>))"
    by (simp add: assigned_def iterrows_length)
  obtain alloc where al: "set_column ''AssignedFaculty'' assigned (df\<lparr>rows := ranked\<rparr>) = Inr alloc"
    using set_column_Inr[OF la] by blast
  have rr': "\<forall>r\<in>set (rows (df\<lparr>rows := ranked\<rparr>)). length r = length (columns (df\<lparr>rows := ranked\<rparr>))"
    using rr by simp
  have g: "get_column ''AssignedFaculty'' alloc = Inr assigned"
    by (rule set_then_get_column[OF la rr' al])
  have "build_tables L name pref_cols df = Inr (alloc, value_counts L assigned)"
    using s a al g by (simp add: build_tables_def)
  with s al g show "\<exists>alloc. sort_values L name df = Inr (df\<lparr>rows := ranked\<rparr>) \<and>
           set_column ''AssignedFaculty'' assigned (df\<lparr>rows := ranked\<rparr>) = Inr alloc \<and>
           get_column ''AssignedFaculty'' alloc = Inr assigned \<and>
           build_tables L name pref_cols df = Inr (alloc, value_counts L assigned)"
    by blast
qed

lemma allocate_students_wf:
  assumes ord: "is_order may_precede (order_grades L)"
      and wf: "wf_df (caller_df st)"
      and f: "find_cgpa_col (columns (caller_df st)) = Some g"
      and run: "allocate_students L st = (Inr (alloc, fc), st')"
  obtains df1 ranked assigned where
    "g + 1 < length (columns (caller_df st))"
    "df1 = (caller_df st)\<lparr>rows := map (\<lambda>r. r[g := to_numeric L (r ! g)]) (rows (caller_df st))\<rparr>"
    "coerce_grades L (columns (caller_df st) ! g) (caller_df st) = Inr df1"
    "sort_values L (columns (caller_df st) ! g) df1 = Inr (df1\<lparr>rows := ranked\<rparr>)"
    "mset ranked = mset (rows df1)"
    "\<forall>r\<in>set ranked. length r = length (columns (caller_df st))"
    "assigned = map (\<lambda>(j, row). row ! (g + 1 + j mod (length (columns (caller_df st)) - (g + 1))))
                  (zip [0..<length ranked] (iterrows L (df1\<lparr>rows := ranked\<rparr>)))"
    "set_column ''AssignedFaculty'' assigned (df1\<lparr>rows := ranked\<rparr>) = Inr alloc"
    "get_column ''AssignedFaculty'' alloc = Inr assigned"
    "fc = value_counts L assigned"
proof -
  define cols where "cols = columns (caller_df st)"
  define df1 where "df1 = (caller_df st)\<lparr>rows := map (\<lambda>r. r[g := to_numeric L (r ! g)]) (rows (caller_df st))\<rparr>"
  define ranked where "ranked = map (\<lambda>i. rows df1 ! i) (order_grades L (map (\<lambda>r. grade_key (r ! g)) (rows df1)))"
  define assigned where "assigned = map (\<lambda>(j, row). row ! (g + 1 + j mod (length cols - (g + 1))))
    (zip [0..<length ranked] (iterrows L (df1\<lparr>rows := ranked\<rparr>)))"
  have p: "drop (g + 1) cols \<noteq> []"
  proof
    assume "drop (g + 1) cols = []"
    then have "find_cgpa_col (columns (caller_df st)) = None \<or>
           (\<exists>g. find_cgpa_col (columns (caller_df st)) = Some g \<and> drop (g + 1) (columns (caller_df st)) = [])"
      using f by (simp add: cols_def)
    from allocate_students_rejected(2)[OF this, of L] run show False by simp
  qed
  then have gl: "g + 1 < length cols" by simp
  have k: "col_index cols (cols ! g) = Some g"
    using find_cgpa_col_index(2)[OF f] by (simp add: cols_def)
  have once: "\<not> 1 < count_list cols (cols ! g)"
    using wf distinct_count_list[of cols "cols ! g"] by (simp add: wf_df_def cols_def)
  have cg: "coerce_grades L (cols ! g) (caller_df st) = Inr df1"
    using coerce_grades_at[of "caller_df st" "cols ! g" g L] k once
    by (simp add: cols_def df1_def)
  have bt: "build_tables L (cols ! g) (drop (g + 1) cols) df1 = Inr (alloc, fc)"
    using allocate_students_accepted[of st g L] f p run wf
    by (auto simp: cols_def df1_def wf_df_def)
  have d: "distinct (columns df1)" using wf by (simp add: wf_df_def df1_def)
  have r: "\<forall>r\<in>set (rows df1). length r = length (columns df1)"
    using wf by (auto simp: wf_df_def df1_def list_all_iff)
  have k1: "col_index (columns df1) (cols ! g) = Some g" using k by (simp add: df1_def cols_def)
  have pc: "drop (g + 1) cols = drop (g + 1) (columns df1)" by (simp add: df1_def cols_def)
  have n: "length (drop (g + 1) cols) = length cols - (g + 1)" by simp
  note B = build_tables_wf[OF d r ord k1 pc p, unfolded n, folded ranked_def, folded assigned_def]
  from B(1) bt have C: "sort_values L (cols ! g) df1 = Inr (df1\<lparr>rows := ranked\<rparr>)"
    "set_column ''AssignedFaculty'' assigned (df1\<lparr>rows := ranked\<rparr>) = Inr alloc"
    "get_column ''AssignedFaculty'' alloc = Inr assigned"
    "fc = value_counts L assigned"
    by auto
  have rl: "\<forall>r\<in>set ranked. length r = length cols" using B(3) by (simp add: df1_def cols_def)
  show thesis
    using that[of df1 ranked assigned] gl df1_def cg C B(2) rl assigned_def
    unfolding cols_def by blast
qed

section \<open>Facts about value_counts\<close>

lemma uniques_set: "set (uniques xs) = set xs"
  by (simp add: uniques_def)

lemma uniques_distinct: "distinct (uniques xs)"
  by (simp add: uniques_def)

lemma sum_counts_uniques: "sum_list (map (count_list xs) (uniques xs)) = length xs"
proof -
  have "sum_list (map (count_list xs) (uniques xs)) = sum (count_list xs) (set (uniques xs))"
    by (rule sum_list_distinct_conv_sum_set[OF uniques_distinct])
  also have "\<dots> = length xs"
    by (simp add: uniques_set sum_count_set)
  finally show ?thesis .
qed

lemma value_counts_props:
  assumes "is_order count_ge (order_counts L)"
  shows "mset (value_counts L xs) = mset (map (\<lambda>v. (v, count_list xs v)) (uniques xs))"
    and "sorted_wrt count_ge (map snd (value_counts L xs))"
proof -
  define groups where "groups = map (\<lambda>v. (v, count_list xs v)) (uniques xs)"
  define p where "p = order_counts L (map snd groups)"
  have vc: "value_counts L xs = map (\<lambda>i. groups ! i) p"
    by (simp add: value_counts_def groups_def p_def Let_def)
  show "mset (value_counts L xs) = mset (map (\<lambda>v. (v, count_list xs v)) (uniques xs))"
    unfolding vc p_def groups_def[symmetric]
    by (rule is_order_nth_mset[OF assms]) simp
  have inr: "\<forall>i\<in>set p. i < length groups"
    using is_order_set[OF assms, of "map snd groups"] by (simp add: p_def)
  have e: "map snd (map (\<lambda>i. groups ! i) p) = map (\<lambda>i. map snd groups ! i) p"
    using inr by simp
  have s: "sorted_wrt count_ge (map (\<lambda>i. map snd groups ! i) p)"
    using is_order_sorted[OF assms, of "map snd groups"] by (simp add: sorted_wrt_map p_def)
  show "sorted_wrt count_ge (map snd (value_counts L xs))"
    unfolding vc e by (rule s)
qed

lemma value_counts_facts:
  assumes "is_order count_ge (order_counts L)"
  shows "distinct (map fst (value_counts L xs))"
    and "set (map fst (value_counts L xs)) = set xs"
    and "set (value_counts L xs) = (\<lambda>v. (v, count_list xs v)) ` set xs"
    and "sum_list (map snd (value_counts L xs)) = length xs"
proof -
  note m = value_counts_props(1)[OF assms, of xs]
  have "mset (map fst (value_counts L xs)) =
      mset (map fst (map (\<lambda>v. (v, count_list xs v)) (uniques xs)))"
    using m by (metis mset_map)
  then have mf: "mset (map fst (value_counts L xs)) = mset (uniques xs)"
    by (simp add: comp_def)
  show "distinct (map fst (value_counts L xs))"
    using mset_eq_imp_distinct_iff[OF mf] uniques_distinct by blast
  show "set (map fst (value_counts L xs)) = set xs"
    using mset_eq_setD[OF mf] by (simp add: uniques_set)
  show "set (value_counts L xs) = (\<lambda>v. (v, count_list xs v)) ` set xs"
    using mset_eq_setD[OF m] by (simp add: uniques_set)
  have "mset (map snd (value_counts L xs)) =
      mset (map snd (map (\<lambda>v. (v, count_list xs v)) (uniques xs)))"
    using m by (metis mset_map)
  then have "mset (map snd (value_counts L xs)) = mset (map (count_list xs) (uniques xs))"
    by (simp add: comp_def)
  then have "sum_list (map snd (value_counts L xs)) = sum_list (map (count_list xs) (uniques xs))"
    by (metis sum_mset_sum_list)
  then show "sum_list (map snd (value_counts L xs)) = length xs"
    by (simp add: sum_counts_uniques)
qed

section \<open>Facts about the examples\<close>

lemma order_example:
  assumes "is_order may_precede ord"
  shows "ord [Some 9, Some 7, Some (17 / 2)] = [0, 2, 1]"
proof -
  define ks where "ks = [Some 9, Some 7, Some (17 / 2 :: rat)]"
  have k: "ks ! 0 = Some 9" "ks ! Suc 0 = Some 7" "ks ! 2 = Some (17 / 2)" "length ks = 3"
    by (simp_all add: ks_def)
  have l: "length (ord ks) = 3" using is_order_length[OF assms, of ks] k(4) by simp
  then obtain a b c where abc: "ord ks = [a, b, c]"
    by (auto simp: length_Suc_conv numeral_3_eq_3)
  have s: "set (ord ks) = {0..<3}" using is_order_set[OF assms, of ks] k(4) by simp
  have "a \<in> set (ord ks)" "b \<in> set (ord ks)" "c \<in> set (ord ks)"
    by (simp_all add: abc)
  then have "a < 3" "b < 3" "c < 3" unfolding s by simp_all
  then have r: "a = 0 \<or> a = 1 \<or> a = 2" "b = 0 \<or> b = 1 \<or> b = 2" "c = 0 \<or> c = 1 \<or> c = 2"
    by arith+
  have "distinct (ord ks)" by (rule is_order_distinct[OF assms])
  then have dd: "a \<noteq> b" "a \<noteq> c" "b \<noteq> c" by (simp_all add: abc)
  have "sorted_wrt (\<lambda>i j. may_precede (ks ! i) (ks ! j)) (ord ks)"
    by (rule is_order_sorted[OF assms])
  then have p: "may_precede (ks ! a) (ks ! b)" "may_precede (ks ! b) (ks ! c)"
    by (simp_all add: abc)
  have "a = 0 \<and> b = 2 \<and> c = 1"
    using r dd p by (elim disjE) (simp_all add: k may_precede_def)
  then show ?thesis using abc by (simp add: ks_def)
qed

lemma wf_df_example: "wf_df df_example"
  by (simp add: wf_df_def df_example_def)

lemma find_df_example: "find_cgpa_col (columns df_example) = Some 1"
  by code_simp

lemma run_df_example:
  "fst (allocate_students stable_lib \<lparr>caller_df = df_example, log = []\<rparr>) =
     Inr (\<lparr>columns = [''Name'', ''CGPA'', ''Pref1'', ''Pref2'', ''AssignedFaculty''],
           rows = [[Str ''A'', Num 9, Str ''FacX'', Str ''FacY'', Str ''FacX''],
                   [Str ''C'', Num (17 / 2), Str ''FacX'', Str ''FacZ'', Str ''FacZ''],
                   [Str ''B'', Num 7, Str ''FacY'', Str ''FacX'', Str ''FacY'']]\<rparr>,
          [(Str ''FacX'', 1), (Str ''FacZ'', 1), (Str ''FacY'', 1)])"
  by code_simp

section \<open>Round-robin assignment\<close>




section \<open>Order of the ranked rows\<close>

text \<open>
  Claim C2.  The claim says that rows with equal grades keep their input order.  The code
  calls \<open>sort_values\<close> with the default \<open>kind="quicksort"\<close>, which pandas documents as
  not stable, so the order of such rows is whatever the library's sort leaves.  The
  theorem shows it on eighteen rows with one grade: two sorts that both meet what the
  library promises rank them differently, one in input order and one in the reverse.
\<close>

theorem C2_tie_order_left_to_the_sort:
  "lib_ok stable_lib \<and> lib_ok reversing_lib \<and>
   map_sum id (\<lambda>t. map hd (rows (fst t)))
     (fst (allocate_students stable_lib \<lparr>caller_df = df_ties, log = []\<rparr>)) =
     Inr (map (\<lambda>i. Num (of_nat i)) [0..<18]) \<and>
   map_sum id (\<lambda>t. map hd (rows (fst t)))
     (fst (allocate_students reversing_lib \<lparr>caller_df = df_ties, log = []\<rparr>)) =
     Inr (map (\<lambda>i. Num (of_nat i)) (rev [0..<18]))"
proof -
  have "map_sum id (\<lambda>t. map hd (rows (fst t)))
     (fst (allocate_students stable_lib \<lparr>caller_df = df_ties, log = []\<rparr>)) =
     Inr (map (\<lambda>i. Num (of_nat i)) [0..<18])"
    by code_simp
  moreover have "map_sum id (\<lambda>t. map hd (rows (fst t)))
     (fst (allocate_students reversing_lib \<lparr>caller_df = df_ties, log = []\<rparr>)) =
     Inr (map (\<lambda>i. Num (of_nat i)) (rev [0..<18]))"
    by code_simp
  ultimately show ?thesis using lib_ok_stable_lib lib_ok_reversing_lib by simp
qed

section \<open>Rejected datasets\<close>

text \<open>
  Claim C3.  On a dataset as \<open>read_csv\<close> gives it, \<open>allocate_students\<close> fails exactly when
  no column name contains \<open>cgpa\<close> or no column follows the first such column; the failure
  is a ValueError with the message of the check that failed, no tables are returned, and
  the state differs only by the log entry of the handler.  On every dataset, well-formed
  or not, whatever exception the body raises, of whatever kind, is logged and leaves
  \<open>allocate_students\<close> unchanged, and no exception leaves it that the body did not raise: a
  frame that repeats the label of its grade column makes \<open>to_numeric\<close> raise TypeError, and
  that TypeError is what the caller gets.
\<close>

theorem C3_invalid_input:
  "(wf_df (caller_df st) \<longrightarrow>
      ((\<exists>e. fst (allocate_students L st) = Inl e) \<longleftrightarrow>
         (find_cgpa_col (columns (caller_df st)) = None \<or>
          (\<exists>g. find_cgpa_col (columns (caller_df st)) = Some g \<and>
               drop (g + 1) (columns (caller_df st)) = []))) \<and>
      (\<forall>e. fst (allocate_students L st) = Inl e \<longrightarrow>
         (e = ValueError msg_no_cgpa \<or> e = ValueError msg_no_pref) \<and>
         snd (allocate_students L st) = st\<lparr>log := log st @ [Exception_logged e]\<rparr>)) \<and>
   (find_cgpa_col (columns (caller_df st)) = None \<longrightarrow>
      fst (allocate_students L st) = Inl (ValueError msg_no_cgpa)) \<and>
   (\<forall>g. find_cgpa_col (columns (caller_df st)) = Some g \<and>
        drop (g + 1) (columns (caller_df st)) = [] \<longrightarrow>
      fst (allocate_students L st) = Inl (ValueError msg_no_pref)) \<and>
   (\<forall>e st'. allocate_body L st = (Inl e, st') \<longrightarrow>
      allocate_students L st = (Inl e, st'\<lparr>log := log st' @ [Exception_logged e]\<rparr>)) \<and>
   (\<forall>e. fst (allocate_students L st) = Inl e \<longrightarrow> fst (allocate_body L st) = Inl e)"
proof (intro conjI)
  show "wf_df (caller_df st) \<longrightarrow>
      ((\<exists>e. fst (allocate_students L st) = Inl e) \<longleftrightarrow>
         (find_cgpa_col (columns (caller_df st)) = None \<or>
          (\<exists>g. find_cgpa_col (columns (caller_df st)) = Some g \<and>
               drop (g + 1) (columns (caller_df st)) = []))) \<and>
      (\<forall>e. fst (allocate_students L st) = Inl e \<longrightarrow>
         (e = ValueError msg_no_cgpa \<or> e = ValueError msg_no_pref) \<and>
         snd (allocate_students L st) = st\<lparr>log := log st @ [Exception_logged e]\<rparr>)"
  proof
    assume wf: "wf_df (caller_df st)"
    show "((\<exists>e. fst (allocate_students L st) = Inl e) \<longleftrightarrow>
         (find_cgpa_col (columns (caller_df st)) = None \<or>
          (\<exists>g. find_cgpa_col (columns (caller_df st)) = Some g \<and>
               drop (g + 1) (columns (caller_df st)) = []))) \<and>
      (\<forall>e. fst (allocate_students L st) = Inl e \<longrightarrow>
         (e = ValueError msg_no_cgpa \<or> e = ValueError msg_no_pref) \<and>
         snd (allocate_students L st) = st\<lparr>log := log st @ [Exception_logged e]\<rparr>)"
    proof (cases "find_cgpa_col (columns (caller_df st)) = None \<or>
         (\<exists>g. find_cgpa_col (columns (caller_df st)) = Some g \<and>
              drop (g + 1) (columns (caller_df st)) = [])")
      case True
      show ?thesis
        using True allocate_students_rejected(2)[OF True, of L] by auto
    next
      case False
      then obtain g where g: "find_cgpa_col (columns (caller_df st)) = Some g"
        "drop (g + 1) (columns (caller_df st)) \<noteq> []"
        by (cases "find_cgpa_col (columns (caller_df st))") auto
      have d: "distinct (columns (caller_df st))"
        using wf by (simp add: wf_df_def)
      from allocate_students_accepted[OF g d, of L] obtain t where
        "fst (allocate_students L st) = Inr t" by auto
      then show ?thesis using False by auto
    qed
  qed
  show "find_cgpa_col (columns (caller_df st)) = None \<longrightarrow>
      fst (allocate_students L st) = Inl (ValueError msg_no_cgpa)"
    by (simp add: allocate_students_def allocate_body_def)
  show "\<forall>g. find_cgpa_col (columns (caller_df st)) = Some g \<and>
        drop (g + 1) (columns (caller_df st)) = [] \<longrightarrow>
      fst (allocate_students L st) = Inl (ValueError msg_no_pref)"
    by (simp add: allocate_students_def allocate_body_def Let_def)
  show "\<forall>e st'. allocate_body L st = (Inl e, st') \<longrightarrow>
      allocate_students L st = (Inl e, st'\<lparr>log := log st' @ [Exception_logged e]\<rparr>)"
    by (simp add: allocate_students_def)
  show "\<forall>e. fst (allocate_students L st) = Inl e \<longrightarrow> fst (allocate_body L st) = Inl e"
    by (cases "allocate_body L st") (auto simp: allocate_students_def split: sum.splits)
qed

theorem C3_invalid_input_witness:
  "wf_df df_no_cgpa \<and>
   find_cgpa_col (columns df_no_cgpa) = None \<and>
   fst (allocate_students stable_lib \<lparr>caller_df = df_no_cgpa, log = []\<rparr>) =
     Inl (ValueError msg_no_cgpa) \<and>
   allocate_body stable_lib \<lparr>caller_df = df_dup_grade, log = []\<rparr> =
     (Inl (TypeError ''arg must be a list, tuple, 1-d array, or Series''),
      \<lparr>caller_df = df_dup_grade, log = [Info_detected 0 ''CGPA'' [''CGPA'', ''Pref1''] 2]\<rparr>) \<and>
   allocate_students stable_lib \<lparr>caller_df = df_dup_grade, log = []\<rparr> =
     (Inl (TypeError ''arg must be a list, tuple, 1-d array, or Series''),
      \<lparr>caller_df = df_dup_grade,
       log = [Info_detected 0 ''CGPA'' [''CGPA'', ''Pref1''] 2,
              Exception_logged (TypeError ''arg must be a list, tuple, 1-d array, or Series'')]\<rparr>)"
proof -
  let ?st = "\<lparr>caller_df = df_no_cgpa, log = []\<rparr>"
  let ?dup = "\<lparr>caller_df = df_dup_grade, log = []\<rparr>"
  let ?e = "TypeError ''arg must be a list, tuple, 1-d array, or Series''"
  let ?after = "\<lparr>caller_df = df_dup_grade, log = [Info_detected 0 ''CGPA'' [''CGPA'', ''Pref1''] 2]\<rparr>"
  have w: "wf_df df_no_cgpa"
    by (simp add: wf_df_def df_no_cgpa_def)
  have f: "find_cgpa_col (columns df_no_cgpa) = None"
    by code_simp
  then have f': "find_cgpa_col (columns (caller_df ?st)) = None" by simp
  have v: "fst (allocate_students stable_lib ?st) = Inl (ValueError msg_no_cgpa)"
    using C3_invalid_input [of ?st stable_lib] f' by blast
  have b: "allocate_body stable_lib ?dup = (Inl ?e, ?after)"
    by code_simp
  have "allocate_students stable_lib ?dup =
      (Inl ?e, ?after\<lparr>log := log ?after @ [Exception_logged ?e]\<rparr>)"
    using C3_invalid_input [of ?dup stable_lib] b by blast
  then have t: "allocate_students stable_lib ?dup =
      (Inl ?e, \<lparr>caller_df = df_dup_grade,
         log = [Info_detected 0 ''CGPA'' [''CGPA'', ''Pref1''] 2, Exception_logged ?e]\<rparr>)"
    by simp
  show ?thesis using w f v b t by simp
qed

section \<open>Faculty counts\<close>

text \<open>
  Claim C4.  On every successful run the count table has one row for each distinct value
  of the \<open>AssignedFaculty\<close> column of the allocation table, NaN included; the count of a
  row is the number of allocation rows with that value, the counts add up to the number of
  allocation rows, and the rows are in descending order of count.
\<close>

theorem C4_faculty_counts:
  assumes "lib_ok L"
      and "wf_df (caller_df st)"
      and "fst (allocate_students L st) = Inr (alloc, fc)"
  shows "\<exists>assigned. get_column ''AssignedFaculty'' alloc = Inr assigned \<and>
           length assigned = length (rows alloc) \<and>
           distinct (map fst fc) \<and>
           set (map fst fc) = set assigned \<and>
           (\<forall>(v, c)\<in>set fc. c = count_list assigned v) \<and>
           (NaN \<in> set assigned \<longrightarrow> (NaN, count_list assigned NaN) \<in> set fc) \<and>
           sum_list (map snd fc) = length (rows alloc) \<and>
           sorted_wrt (\<lambda>a b. b \<le> a) (map snd fc)"
proof -
  have og: "is_order may_precede (order_grades L)" and oc: "is_order count_ge (order_counts L)"
    using assms(1) by (simp_all add: lib_ok_def)
  obtain g where f: "find_cgpa_col (columns (caller_df st)) = Some g"
    using assms(3) allocate_students_rejected(2)[of st L]
    by (cases "find_cgpa_col (columns (caller_df st))") auto
  obtain df1 ranked assigned where
    A: "g + 1 < length (columns (caller_df st))"
      "df1 = (caller_df st)\<lparr>rows := map (\<lambda>r. r[g := to_numeric L (r ! g)]) (rows (caller_df st))\<rparr>"
      "coerce_grades L (columns (caller_df st) ! g) (caller_df st) = Inr df1"
      "sort_values L (columns (caller_df st) ! g) df1 = Inr (df1\<lparr>rows := ranked\<rparr>)"
      "mset ranked = mset (rows df1)"
      "\<forall>r\<in>set ranked. length r = length (columns (caller_df st))"
      "assigned = map (\<lambda>(j, row). row ! (g + 1 + j mod (length (columns (caller_df st)) - (g + 1))))
                  (zip [0..<length ranked] (iterrows L (df1\<lparr>rows := ranked\<rparr>)))"
      "set_column ''AssignedFaculty'' assigned (df1\<lparr>rows := ranked\<rparr>) = Inr alloc"
      "get_column ''AssignedFaculty'' alloc = Inr assigned"
      "fc = value_counts L assigned"
    by (rule allocate_students_wf[OF og assms(2) f run_pair[OF assms(3)]])
  note gc = A(9) and fc = A(10)
  have len: "length assigned = length (rows alloc)"
    using gc by (auto simp: get_column_def split: option.splits)
  note V = value_counts_facts[OF oc, of assigned] value_counts_props(2)[OF oc, of assigned]
  have "sorted_wrt (\<lambda>a b. b \<le> a) (map snd fc)"
    using V(5) unfolding fc count_ge_def .
  moreover have "\<forall>(v, c)\<in>set fc. c = count_list assigned v"
    using V(3) by (auto simp: fc)
  moreover have "NaN \<in> set assigned \<longrightarrow> (NaN, count_list assigned NaN) \<in> set fc"
    using V(3) by (auto simp: fc)
  ultimately show ?thesis
    using gc len V(1,2,4) by (auto simp: fc)
qed

theorem C4_faculty_counts_witness:
  "lib_ok stable_lib \<and> wf_df df_missing_pref \<and>
   fst (allocate_students stable_lib \<lparr>caller_df = df_missing_pref, log = []\<rparr>) =
     Inr (\<lparr>columns = [''Name'', ''CGPA'', ''Pref1'', ''AssignedFaculty''],
           rows = [[Str ''A'', Num 9, NaN, NaN],
                   [Str ''B'', Num 8, Str ''FacX'', Str ''FacX''],
                   [Str ''C'', Num 7, NaN, NaN]]\<rparr>,
          [(NaN, 2), (Str ''FacX'', 1)]) \<and>
   (\<exists>assigned.
      get_column ''AssignedFaculty''
        \<lparr>columns = [''Name'', ''CGPA'', ''Pref1'', ''AssignedFaculty''],
         rows = [[Str ''A'', Num 9, NaN, NaN],
                 [Str ''B'', Num 8, Str ''FacX'', Str ''FacX''],
                 [Str ''C'', Num 7, NaN, NaN]]\<rparr> = Inr assigned \<and>
      set (map fst [(NaN, 2), (Str ''FacX'', 1 :: nat)]) = set assigned \<and>
      sum_list (map snd [(NaN, 2), (Str ''FacX'', 1 :: nat)]) = length assigned)"
proof -
  let ?st = "\<lparr>caller_df = df_missing_pref, log = []\<rparr>"
  let ?alloc = "\<lparr>columns = [''Name'', ''CGPA'', ''Pref1'', ''AssignedFaculty''],
           rows = [[Str ''A'', Num 9, NaN, NaN],
                   [Str ''B'', Num 8, Str ''FacX'', Str ''FacX''],
                   [Str ''C'', Num 7, NaN, NaN]]\<rparr>"
  have w: "wf_df df_missing_pref"
    by (simp add: wf_df_def df_missing_pref_def)
  then have wf: "wf_df (caller_df ?st)" by simp
  have run: "fst (allocate_students stable_lib ?st) = Inr (?alloc, [(NaN, 2), (Str ''FacX'', 1)])"
    by code_simp
  from C4_faculty_counts [OF lib_ok_stable_lib wf run]
  obtain assigned where
    "get_column ''AssignedFaculty'' ?alloc = Inr assigned"
    "length assigned = length (rows ?alloc)"
    "set (map fst [(NaN, 2), (Str ''FacX'', 1 :: nat)]) = set assigned"
    "sum_list (map snd [(NaN, 2), (Str ''FacX'', 1 :: nat)]) = length (rows ?alloc)"
    by blast
  then have "\<exists>assigned.
      get_column ''AssignedFaculty'' ?alloc = Inr assigned \<and>
      set (map fst [(NaN, 2), (Str ''FacX'', 1 :: nat)]) = set assigned \<and>
      sum_list (map snd [(NaN, 2), (Str ''FacX'', 1 :: nat)]) = length assigned"
    by (intro exI[of _ assigned]) simp
  then show ?thesis
    using lib_ok_stable_lib w run by blast
qed

section \<open>Detection of the grade column\<close>

text \<open>
  Claim C5.  For every sequence of column names, \<open>find_cgpa_col\<close> returns the position,
  counted from 0, of the first name whose lower-cased form has \<open>cgpa\<close> as a substring, and
  \<open>None\<close> exactly when no name has; it returns 1 for Name, SomeCGPA, Pref1, Pref2 and
  \<open>None\<close> for Name, Score, Pref1.
\<close>

theorem C5_find_cgpa_col:
  "(find_cgpa_col cols = None \<longleftrightarrow>
      (\<forall>c\<in>set cols. \<not> (\<exists>ps ss. lower c = ps @ ''cgpa'' @ ss))) \<and>
   (find_cgpa_col cols = Some i \<longleftrightarrow>
      i < length cols \<and> (\<exists>ps ss. lower (cols ! i) = ps @ ''cgpa'' @ ss) \<and>
      (\<forall>j<i. \<not> (\<exists>ps ss. lower (cols ! j) = ps @ ''cgpa'' @ ss))) \<and>
   find_cgpa_col [''Name'', ''SomeCGPA'', ''Pref1'', ''Pref2''] = Some 1 \<and>
   find_cgpa_col [''Name'', ''Score'', ''Pref1''] = None"
proof (intro conjI)
  show "find_cgpa_col cols = None \<longleftrightarrow>
      (\<forall>c\<in>set cols. \<not> (\<exists>ps ss. lower c = ps @ ''cgpa'' @ ss))"
    unfolding find_cgpa_col_def find_cgpa_from_None contains_iff ..
  show "find_cgpa_col cols = Some i \<longleftrightarrow>
      i < length cols \<and> (\<exists>ps ss. lower (cols ! i) = ps @ ''cgpa'' @ ss) \<and>
      (\<forall>j<i. \<not> (\<exists>ps ss. lower (cols ! j) = ps @ ''cgpa'' @ ss))"
    unfolding find_cgpa_col_def find_cgpa_from_Some contains_iff by simp
  show "find_cgpa_col [''Name'', ''SomeCGPA'', ''Pref1'', ''Pref2''] = Some 1"
    by code_simp
  show "find_cgpa_col [''Name'', ''Score'', ''Pref1''] = None"
    by code_simp
qed

theorem C5_find_cgpa_col_witness:
  "find_cgpa_col [''Roll'', ''Cgpa'', ''P1''] = Some 1 \<and>
   (\<exists>ps ss. lower ''Cgpa'' = ps @ ''cgpa'' @ ss) \<and>
   \<not> (\<exists>ps ss. lower ''Roll'' = ps @ ''cgpa'' @ ss)"
proof -
  have f: "find_cgpa_col [''Roll'', ''Cgpa'', ''P1''] = Some 1"
    by code_simp
  have "find_cgpa_col [''Roll'', ''Cgpa'', ''P1''] = Some 1 \<longleftrightarrow>
      1 < length [''Roll'', ''Cgpa'', ''P1''] \<and>
      (\<exists>ps ss. lower ([''Roll'', ''Cgpa'', ''P1''] ! 1) = ps @ ''cgpa'' @ ss) \<and>
      (\<forall>j<1. \<not> (\<exists>ps ss. lower ([''Roll'', ''Cgpa'', ''P1''] ! j) = ps @ ''cgpa'' @ ss))"
    using C5_find_cgpa_col [of "[''Roll'', ''Cgpa'', ''P1'']" 1] by blast
  with f show ?thesis by simp
qed

section \<open>The caller's dataset\<close>

text \<open>
  Claim C6, as amended.  The only thing \<open>allocate_students\<close> changes besides the log is the
  frame the caller passed: when the dataset is accepted, the cells of its grade column are
  replaced in place by their numeric coercion; the column labels, every other cell and the
  order of the rows stay as they were, and no column is added to it.  A rejected dataset
  is left as it was.
\<close>

theorem C6_caller_dataset_after:
  assumes "wf_df (caller_df st)"
  shows "caller_df (snd (allocate_students L st)) =
         (case find_cgpa_col (columns (caller_df st)) of
            None \<Rightarrow> caller_df st
          | Some g \<Rightarrow>
              if drop (g + 1) (columns (caller_df st)) = [] then caller_df st
              else (caller_df st)\<lparr>rows := map (\<lambda>r. r[g := to_numeric L (r ! g)]) (rows (caller_df st))\<rparr>)"
proof (cases "find_cgpa_col (columns (caller_df st))")
  case None
  then show ?thesis using allocate_students_rejected[of st L] by auto
next
  case (Some g)
  show ?thesis
  proof (cases "drop (g + 1) (columns (caller_df st)) = []")
    case True
    then show ?thesis using Some allocate_students_rejected[of st L] by auto
  next
    case False
    have d: "distinct (columns (caller_df st))"
      using assms by (simp add: wf_df_def)
    show ?thesis using Some False allocate_students_accepted[OF Some False d, of L] by auto
  qed
qed

theorem C6_caller_dataset_after_witness:
  "wf_df df_text_grade \<and>
   caller_df (snd (allocate_students stable_lib \<lparr>caller_df = df_text_grade, log = []\<rparr>)) =
     df_text_grade\<lparr>rows := map (\<lambda>r. r[1 := to_numeric stable_lib (r ! 1)]) (rows df_text_grade)\<rparr>"
proof -
  let ?st = "\<lparr>caller_df = df_text_grade, log = []\<rparr>"
  have w: "wf_df df_text_grade"
    by (simp add: wf_df_def df_text_grade_def)
  then have wf: "wf_df (caller_df ?st)" by simp
  have f: "find_cgpa_col (columns (caller_df ?st)) = Some 1"
    by code_simp
  have p: "drop (1 + 1) (columns (caller_df ?st)) \<noteq> []"
    by (simp add: df_text_grade_def)
  show ?thesis
    using C6_caller_dataset_after [OF wf, of stable_lib] f p w by simp
qed

text \<open>
  The claim as stated (the caller's dataset is unchanged) fails: a text in the grade
  column is a number or NaN in the caller's frame after the call.
\<close>

theorem C6_caller_dataset_changed:
  "caller_df (snd (allocate_students stable_lib \<lparr>caller_df = df_text_grade, log = []\<rparr>)) =
     \<lparr>columns = [''Name'', ''CGPA'', ''Pref1''],
      rows = [[Str ''A'', NaN, Str ''FacX''], [Str ''B'', Num (17 / 2), Str ''FacY'']]\<rparr> \<and>
   caller_df (snd (allocate_students stable_lib \<lparr>caller_df = df_text_grade, log = []\<rparr>)) \<noteq>
     df_text_grade"
  by code_simp

section \<open>Determinism\<close>

text \<open>
  Claim C7.  Calling \<open>allocate_students\<close> twice on the same dataset gives the same
  allocation table and the same count table: the second call, made on the frame and the
  log that the first call left, returns what the first returned, and the content of the
  log has no influence on the result.
\<close>

theorem C7_deterministic:
  assumes "wf_df (caller_df st)"
  shows "fst (allocate_students L (snd (allocate_students L st))) = fst (allocate_students L st) \<and>
       fst (allocate_students L (st\<lparr>log := lg\<rparr>)) = fst (allocate_students L st)"
proof (cases "find_cgpa_col (columns (caller_df st)) = None \<or>
       (\<exists>g. find_cgpa_col (columns (caller_df st)) = Some g \<and>
            drop (g + 1) (columns (caller_df st)) = [])")
  case True
  have "fst (allocate_students L st') = fst (allocate_students L st)"
    if c: "columns (caller_df st') = columns (caller_df st)" for st'
  proof -
    have T': "find_cgpa_col (columns (caller_df st')) = None \<or>
       (\<exists>g. find_cgpa_col (columns (caller_df st')) = Some g \<and>
            drop (g + 1) (columns (caller_df st')) = [])"
      using True c by simp
    show ?thesis
      using allocate_students_rejected(2)[OF T', of L] allocate_students_rejected(2)[OF True, of L] c
      by simp
  qed
  from this[of "snd (allocate_students L st)"] this[of "st\<lparr>log := lg\<rparr>"]
  show ?thesis using allocate_students_rejected(2)[OF True, of L] by simp
next
  case False
  then obtain g where g: "find_cgpa_col (columns (caller_df st)) = Some g"
    "drop (g + 1) (columns (caller_df st)) \<noteq> []"
    by (cases "find_cgpa_col (columns (caller_df st))") auto
  let ?df1 = "(caller_df st)\<lparr>rows := map (\<lambda>r. r[g := to_numeric L (r ! g)]) (rows (caller_df st))\<rparr>"
  have same: "fst (allocate_students L st') =
      build_tables L (columns (caller_df st) ! g) (drop (g + 1) (columns (caller_df st)))
        ((caller_df st')\<lparr>rows := map (\<lambda>r. r[g := to_numeric L (r ! g)]) (rows (caller_df st'))\<rparr>)"
    if "columns (caller_df st') = columns (caller_df st)" for st'
  proof -
    have g': "find_cgpa_col (columns (caller_df st')) = Some g"
      "drop (g + 1) (columns (caller_df st')) \<noteq> []"
      using g that by simp_all
    have d': "distinct (columns (caller_df st'))"
      using assms that by (simp add: wf_df_def)
    show ?thesis using allocate_students_accepted[OF g' d', of L] that by auto
  qed
  have idem: "?df1\<lparr>rows := map (\<lambda>r. r[g := to_numeric L (r ! g)]) (rows ?df1)\<rparr> = ?df1"
    by (simp add: comp_def coerce_row_idem)
  have after: "caller_df (snd (allocate_students L st)) = ?df1"
    using allocate_students_accepted[OF g, of L] assms by (auto simp: wf_df_def)
  have "fst (allocate_students L (snd (allocate_students L st))) = fst (allocate_students L st)"
    using same[of "snd (allocate_students L st)"] same[of st] after idem by simp
  moreover have "fst (allocate_students L (st\<lparr>log := lg\<rparr>)) = fst (allocate_students L st)"
    using same[of "st\<lparr>log := lg\<rparr>"] same[of st] by simp
  ultimately show ?thesis by simp
qed

theorem C7_deterministic_witness:
  "wf_df df_text_grade \<and>
   fst (allocate_students stable_lib
          (snd (allocate_students stable_lib \<lparr>caller_df = df_text_grade, log = []\<rparr>))) =
   fst (allocate_students stable_lib \<lparr>caller_df = df_text_grade, log = []\<rparr>)"
proof -
  let ?st = "\<lparr>caller_df = df_text_grade, log = []\<rparr>"
  have w: "wf_df df_text_grade"
    by (simp add: wf_df_def df_text_grade_def)
  then have wf: "wf_df (caller_df ?st)" by simp
  show ?thesis
    using C7_deterministic [OF wf, of stable_lib "[]"] w by simp
qed

section \<open>The end-to-end scenario\<close>

text \<open>
  Claim C8, as amended.  For the dataset with header Name, CGPA, Pref1, Pref2 and rows
  (A, 9.0, FacX, FacY), (B, 7.0, FacY, FacX), (C, 8.5, FacX, FacZ) the ranked order is
  A, C, B; A is assigned FacX (its Pref1), C is assigned FacZ (its Pref2) and B is
  assigned FacY (its Pref1); the count table has the three rows FacX, FacZ, FacY, each
  with count 1, in the order the sort by count leaves them.
\<close>

theorem C8_end_to_end:
  assumes "lib_ok L"
  shows "\<exists>fc. fst (allocate_students L \<lparr>caller_df = df_example, log = lg\<rparr>) =
           Inr (\<lparr>columns = [''Name'', ''CGPA'', ''Pref1'', ''Pref2'', ''AssignedFaculty''],
                 rows = [[Str ''A'', Num 9, Str ''FacX'', Str ''FacY'', Str ''FacX''],
                         [Str ''C'', Num (17 / 2), Str ''FacX'', Str ''FacZ'', Str ''FacZ''],
                         [Str ''B'', Num 7, Str ''FacY'', Str ''FacX'', Str ''FacY'']]\<rparr>, fc) \<and>
          mset fc = {#(Str ''FacX'', 1), (Str ''FacZ'', 1), (Str ''FacY'', 1)#}"
proof -
  let ?st = "\<lparr>caller_df = df_example, log = lg\<rparr>"
  have og: "is_order may_precede (order_grades L)" and oc: "is_order count_ge (order_counts L)"
    using assms by (simp_all add: lib_ok_def)
  have f: "find_cgpa_col (columns (caller_df ?st)) = Some 1"
    by code_simp
  have p: "drop (1 + 1) (columns (caller_df ?st)) \<noteq> []"
    by (simp add: df_example_def)
  have o: "order_grades L [Some 9, Some 7, Some (17 / 2)] = [0, 2, 1]"
    by (rule order_example[OF og])
  have bt: "build_tables L ''CGPA'' [''Pref1'', ''Pref2'']
      \<lparr>columns = [''Name'', ''CGPA'', ''Pref1'', ''Pref2''],
       rows = [[Str ''A'', Num 9, Str ''FacX'', Str ''FacY''],
               [Str ''B'', Num 7, Str ''FacY'', Str ''FacX''],
               [Str ''C'', Num (17 / 2), Str ''FacX'', Str ''FacZ'']]\<rparr> =
     Inr (\<lparr>columns = [''Name'', ''CGPA'', ''Pref1'', ''Pref2'', ''AssignedFaculty''],
                 rows = [[Str ''A'', Num 9, Str ''FacX'', Str ''FacY'', Str ''FacX''],
                         [Str ''C'', Num (17 / 2), Str ''FacX'', Str ''FacZ'', Str ''FacZ''],
                         [Str ''B'', Num 7, Str ''FacY'', Str ''FacX'', Str ''FacY'']]\<rparr>,
          value_counts L [Str ''FacX'', Str ''FacZ'', Str ''FacY''])"
    by (simp add: build_tables_def sort_values_def get_column_def set_column_def row_get_def
          iterrows_def o)
  have m: "mset (value_counts L [Str ''FacX'', Str ''FacZ'', Str ''FacY'']) =
      {#(Str ''FacX'', 1), (Str ''FacZ'', 1), (Str ''FacY'', 1)#}"
    unfolding value_counts_props(1)[OF oc] by (simp add: uniques_def)
  have d: "distinct (columns (caller_df ?st))"
    by (simp add: df_example_def)
  show ?thesis
    using allocate_students_accepted[OF f p d, of L] bt m by (simp add: df_example_def)
qed

theorem C8_end_to_end_witness:
  "lib_ok stable_lib \<and>
   (\<exists>fc. fst (allocate_students stable_lib \<lparr>caller_df = df_example, log = []\<rparr>) =
           Inr (\<lparr>columns = [''Name'', ''CGPA'', ''Pref1'', ''Pref2'', ''AssignedFaculty''],
                 rows = [[Str ''A'', Num 9, Str ''FacX'', Str ''FacY'', Str ''FacX''],
                         [Str ''C'', Num (17 / 2), Str ''FacX'', Str ''FacZ'', Str ''FacZ''],
                         [Str ''B'', Num 7, Str ''FacY'', Str ''FacX'', Str ''FacY'']]\<rparr>, fc) \<and>
          mset fc = {#(Str ''FacX'', 1), (Str ''FacZ'', 1), (Str ''FacY'', 1)#})"
  using C8_end_to_end [OF lib_ok_stable_lib, of "[]"] lib_ok_stable_lib by blast

text \<open>
  The claim as stated (C is assigned FacY, B is assigned FacX, counts FacX 2 and FacY 1)
  is not what the code returns.
\<close>

theorem C8_spec_example_refuted:
  "fst (allocate_students stable_lib \<lparr>caller_df = df_example, log = []\<rparr>) =
     Inr (\<lparr>columns = [''Name'', ''CGPA'', ''Pref1'', ''Pref2'', ''AssignedFaculty''],
           rows = [[Str ''A'', Num 9, Str ''FacX'', Str ''FacY'', Str ''FacX''],
                   [Str ''C'', Num (17 / 2), Str ''FacX'', Str ''FacZ'', Str ''FacZ''],
                   [Str ''B'', Num 7, Str ''FacY'', Str ''FacX'', Str ''FacY'']]\<rparr>,
          [(Str ''FacX'', 1), (Str ''FacZ'', 1), (Str ''FacY'', 1)]) \<and>
   fst (allocate_students stable_lib \<lparr>caller_df = df_example, log = []\<rparr>) \<noteq>
     Inr (\<lparr>columns = [''Name'', ''CGPA'', ''Pref1'', ''Pref2'', ''AssignedFaculty''],
           rows = [[Str ''A'', Num 9, Str ''FacX'', Str ''FacY'', Str ''FacX''],
                   [Str ''C'', Num (17 / 2), Str ''FacX'', Str ''FacZ'', Str ''FacY''],
                   [Str ''B'', Num 7, Str ''FacY'', Str ''FacX'', Str ''FacX'']]\<rparr>,
          [(Str ''FacX'', 2), (Str ''FacY'', 1)])"
  by code_simp

section \<open>A dataset without rows\<close>

text \<open>
  Claim C9.  A dataset that passes both checks and has no data rows is allocated without
  failure: the allocation table has no rows and has the column \<open>AssignedFaculty\<close>, and
  the count table is empty.
\<close>

theorem C9_no_rows:
  assumes "lib_ok L"
      and "find_cgpa_col (columns (caller_df st)) = Some g"
      and "drop (g + 1) (columns (caller_df st)) \<noteq> []"
      and "rows (caller_df st) = []"
      and "wf_df (caller_df st)"
  shows "\<exists>alloc. fst (allocate_students L st) = Inr (alloc, []) \<and> rows alloc = [] \<and>
           ''AssignedFaculty'' \<in> set (columns alloc) \<and>
           columns alloc = (if ''AssignedFaculty'' \<in> set (columns (caller_df st))
                            then columns (caller_df st)
                            else columns (caller_df st) @ [''AssignedFaculty''])"
proof -
  have og: "order_grades L [] = []" and oc: "order_counts L [] = []"
    using assms(1) is_order_length[of _ _ "[]"] by (auto simp: lib_ok_def)
  obtain cs where df: "caller_df st = \<lparr>columns = cs, rows = []\<rparr>"
    using assms(4) by (cases "caller_df st") simp
  have k: "col_index cs (cs ! g) = Some g"
    using find_cgpa_col_index(2)[OF assms(2)] by (simp add: df)
  have s: "sort_values L (cs ! g) \<lparr>columns = cs, rows = []\<rparr> = Inr \<lparr>columns = cs, rows = []\<rparr>"
    using k og by (simp add: sort_values_def get_column_def)
  have vc: "value_counts L [] = []"
    by (simp add: value_counts_def uniques_def oc)
  have "build_tables L (cs ! g) (drop (g + 1) cs) \<lparr>columns = cs, rows = []\<rparr> =
      Inr (\<lparr>columns = (if ''AssignedFaculty'' \<in> set cs then cs else cs @ [''AssignedFaculty'']),
            rows = []\<rparr>, [])"
  proof (cases "col_index cs ''AssignedFaculty''")
    case None
    then have "''AssignedFaculty'' \<notin> set cs" by (simp add: col_index_None)
    then show ?thesis
      using None vc
      by (simp add: build_tables_def s set_column_def get_column_def col_index_append_new
            iterrows_def)
  next
    case (Some j)
    then have "''AssignedFaculty'' \<in> set cs"
      using col_index_None[of cs "''AssignedFaculty''"] by auto
    then show ?thesis
      using Some vc
      by (simp add: build_tables_def s set_column_def get_column_def iterrows_def)
  qed
  moreover have "distinct (columns (caller_df st))"
    using assms(5) by (simp add: wf_df_def)
  ultimately show ?thesis
    using allocate_students_accepted[OF assms(2,3), of L] by (auto simp: df)
qed

theorem C9_no_rows_witness:
  "lib_ok stable_lib \<and>
   find_cgpa_col (columns (caller_df \<lparr>caller_df = df_no_rows, log = []\<rparr>)) = Some 1 \<and>
   fst (allocate_students stable_lib \<lparr>caller_df = df_no_rows, log = []\<rparr>) =
     Inr (\<lparr>columns = [''Name'', ''CGPA'', ''Pref1'', ''Pref2'', ''AssignedFaculty''], rows = []\<rparr>, [])"
proof -
  have f: "find_cgpa_col (columns (caller_df \<lparr>caller_df = df_no_rows, log = []\<rparr>)) = Some 1"
    by code_simp
  have p: "drop (1 + 1) (columns (caller_df \<lparr>caller_df = df_no_rows, log = []\<rparr>)) \<noteq> []"
    by (simp add: df_no_rows_def)
  have r: "rows (caller_df \<lparr>caller_df = df_no_rows, log = []\<rparr>) = []"
    by (simp add: df_no_rows_def)
  have w: "wf_df (caller_df \<lparr>caller_df = df_no_rows, log = []\<rparr>)"
    by (simp add: wf_df_def df_no_rows_def)
  obtain alloc where a: "fst (allocate_students stable_lib \<lparr>caller_df = df_no_rows, log = []\<rparr>) = Inr (alloc, [])"
    "rows alloc = []"
    "columns alloc = (if ''AssignedFaculty'' \<in> set (columns (caller_df \<lparr>caller_df = df_no_rows, log = []\<rparr>))
                            then columns (caller_df \<lparr>caller_df = df_no_rows, log = []\<rparr>)
                            else columns (caller_df \<lparr>caller_df = df_no_rows, log = []\<rparr>) @ [''AssignedFaculty''])"
    using C9_no_rows [OF lib_ok_stable_lib f p r w] by blast
  have "alloc = \<lparr>columns = [''Name'', ''CGPA'', ''Pref1'', ''Pref2'', ''AssignedFaculty''], rows = []\<rparr>"
    using a(2,3) by (cases alloc) (simp add: df_no_rows_def)
  then show ?thesis using a(1) f lib_ok_stable_lib by simp
qed

section \<open>Rows and columns of the allocation table\<close>

text \<open>
  Claim C10, as amended.  For every accepted dataset that has no column named
  \<open>AssignedFaculty\<close>, the allocation table has the columns of the input followed by
  \<open>AssignedFaculty\<close> and as many rows as the input; without their last cell its rows are,
  as a multiset, the input rows with the grade cell replaced by its numeric coercion and
  every other cell unchanged.
\<close>

theorem C10_rows_kept:
  assumes "lib_ok L"
      and "wf_df (caller_df st)"
      and "''AssignedFaculty'' \<notin> set (columns (caller_df st))"
      and "find_cgpa_col (columns (caller_df st)) = Some g"
      and "fst (allocate_students L st) = Inr (alloc, fc)"
  shows "columns alloc = columns (caller_df st) @ [''AssignedFaculty''] \<and>
         length (rows alloc) = length (rows (caller_df st)) \<and>
         mset (map butlast (rows alloc)) =
           mset (map (\<lambda>r. r[g := to_numeric L (r ! g)]) (rows (caller_df st))) \<and>
         (\<forall>r\<in>set (rows alloc). length r = length (columns alloc))"
proof -
  have og: "is_order may_precede (order_grades L)"
    using assms(1) by (simp add: lib_ok_def)
  obtain df1 ranked assigned where
    A: "g + 1 < length (columns (caller_df st))"
      "df1 = (caller_df st)\<lparr>rows := map (\<lambda>r. r[g := to_numeric L (r ! g)]) (rows (caller_df st))\<rparr>"
      "coerce_grades L (columns (caller_df st) ! g) (caller_df st) = Inr df1"
      "sort_values L (columns (caller_df st) ! g) df1 = Inr (df1\<lparr>rows := ranked\<rparr>)"
      "mset ranked = mset (rows df1)"
      "\<forall>r\<in>set ranked. length r = length (columns (caller_df st))"
      "assigned = map (\<lambda>(j, row). row ! (g + 1 + j mod (length (columns (caller_df st)) - (g + 1))))
                  (zip [0..<length ranked] (iterrows L (df1\<lparr>rows := ranked\<rparr>)))"
      "set_column ''AssignedFaculty'' assigned (df1\<lparr>rows := ranked\<rparr>) = Inr alloc"
      "get_column ''AssignedFaculty'' alloc = Inr assigned"
      "fc = value_counts L assigned"
    by (rule allocate_students_wf[OF og assms(2,4) run_pair[OF assms(5)]])
  have la: "length assigned = length ranked" by (simp add: A(7) iterrows_length)
  have "''AssignedFaculty'' \<notin> set (columns (df1\<lparr>rows := ranked\<rparr>))"
    using assms(3) by (simp add: A(2))
  from set_column_new[OF this, of assigned] A(8) la
  have al: "columns alloc = columns (caller_df st) @ [''AssignedFaculty'']"
    "rows alloc = map (\<lambda>(r, v). r @ [v]) (zip ranked assigned)"
    by (auto simp: A(2))
  have bl: "map butlast (rows alloc) = ranked"
    unfolding al(2) by (rule map_butlast_snoc[OF la])
  have m: "mset ranked = mset (map (\<lambda>r. r[g := to_numeric L (r ! g)]) (rows (caller_df st)))"
    using A(5) by (simp add: A(2))
  have "length ranked = length (rows (caller_df st))"
    using mset_eq_length[OF m] by simp
  then have l: "length (rows alloc) = length (rows (caller_df st))"
    using la by (simp add: al(2))
  have "\<forall>r\<in>set (rows alloc). length r = length (columns alloc)"
    using A(6) by (auto simp: al dest!: set_zip_leftD)
  then show ?thesis using al(1) l bl m by simp
qed

theorem C10_rows_kept_witness:
  "lib_ok stable_lib \<and> wf_df df_example \<and>
   ''AssignedFaculty'' \<notin> set (columns df_example) \<and>
   mset (map butlast
     [[Str ''A'', Num 9, Str ''FacX'', Str ''FacY'', Str ''FacX''],
      [Str ''C'', Num (17 / 2), Str ''FacX'', Str ''FacZ'', Str ''FacZ''],
      [Str ''B'', Num 7, Str ''FacY'', Str ''FacX'', Str ''FacY'']]) =
   mset (map (\<lambda>r. r[1 := to_numeric stable_lib (r ! 1)]) (rows df_example))"
proof -
  let ?st = "\<lparr>caller_df = df_example, log = []\<rparr>"
  have wf: "wf_df (caller_df ?st)" using wf_df_example by simp
  have f: "find_cgpa_col (columns (caller_df ?st)) = Some 1" using find_df_example by simp
  have n: "''AssignedFaculty'' \<notin> set (columns (caller_df ?st))" by (simp add: df_example_def)
  from C10_rows_kept [OF lib_ok_stable_lib wf n f run_df_example]
  show ?thesis using lib_ok_stable_lib wf_df_example n by simp
qed

text \<open>
  The claim as stated fails when the input has a column \<open>AssignedFaculty\<close>: no column is
  added, and the cells of that column are overwritten.
\<close>

theorem C10_assigned_faculty_overwritten:
  "columns df_clash = [''AssignedFaculty'', ''CGPA'', ''Pref1''] \<and>
   rows df_clash = [[Str ''DrRao'', Num 9, Str ''FacX'']] \<and>
   fst (allocate_students stable_lib \<lparr>caller_df = df_clash, log = []\<rparr>) =
     Inr (\<lparr>columns = [''AssignedFaculty'', ''CGPA'', ''Pref1''],
           rows = [[Str ''FacX'', Num 9, Str ''FacX'']]\<rparr>,
          [(Str ''FacX'', 1)])"
  by code_simp

end
